theory Spec2Isabelle
  imports Main "HOL-Library.Sublist" "HOL-Library.Multiset"
begin

section \<open>JavaScript string primitives\<close>

text \<open>
  Strings are lists of characters. Case mapping and white space are modelled on the ASCII
  range: \<open>toLowerCase\<close> maps \<open>A\<close>..\<open>Z\<close> to \<open>a\<close>..\<open>z\<close> and leaves every other character alone,
  and the white space removed by \<open>trim\<close> (and matched by \<open>\s\<close>) is tab, line feed, vertical
  tab, form feed, carriage return and space. \<open>length\<close> counts characters of the list.
\<close>

definition isSpace :: "char \<Rightarrow> bool" where
  "isSpace c = (c \<in> set [CHR 0x09, CHR 0x0A, CHR 0x0B, CHR 0x0C, CHR 0x0D, CHR 0x20])"

definition trim :: "string \<Rightarrow> string" where
  "trim s = rev (dropWhile isSpace (rev (dropWhile isSpace s)))"

definition lowerChar :: "char \<Rightarrow> char" where
  "lowerChar c =
     (case map_of (zip ''ABCDEFGHIJKLMNOPQRSTUVWXYZ'' ''abcdefghijklmnopqrstuvwxyz'') c of
        Some d \<Rightarrow> d
      | None \<Rightarrow> c)"

definition toLowerCase :: "string \<Rightarrow> string" where
  "toLowerCase s = map lowerChar s"

text \<open>
  \<open>hay.indexOf(needle)\<close>: the index of the first occurrence, or \<open>-1\<close>. The second argument
  of \<open>indexOfFrom\<close> is the index of the head of the remaining text.
\<close>

fun indexOfFrom :: "nat \<Rightarrow> string \<Rightarrow> string \<Rightarrow> int" where
  "indexOfFrom i [] needle = (if needle = [] then int i else - 1)"
| "indexOfFrom i (c # cs) needle =
     (if prefix needle (c # cs) then int i else indexOfFrom (Suc i) cs needle)"

definition indexOf :: "string \<Rightarrow> string \<Rightarrow> int" where
  "indexOf hay needle = indexOfFrom 0 hay needle"

text \<open>
  \<open>a || b\<close> on an optional string: \<open>undefined\<close> (\<open>None\<close>) and the empty string are falsy.
\<close>

definition truthy :: "string option \<Rightarrow> bool" where
  "truthy a = (case a of None \<Rightarrow> False | Some s \<Rightarrow> s \<noteq> [])"

definition js_or :: "string option \<Rightarrow> string \<Rightarrow> string" where
  "js_or a b = (case a of None \<Rightarrow> b | Some s \<Rightarrow> if s \<noteq> [] then s else b)"

text \<open>
  \<open>Array.prototype.sort(cmp)\<close> is a stable sort: \<open>x\<close> goes before \<open>y\<close> when \<open>cmp x y < 0\<close>,
  and elements that compare \<open>0\<close> keep their order. Insertion from the right is stable.
\<close>

fun js_insert :: "('a \<Rightarrow> 'a \<Rightarrow> int) \<Rightarrow> 'a \<Rightarrow> 'a list \<Rightarrow> 'a list" where
  "js_insert cmp x [] = [x]"
| "js_insert cmp x (y # ys) = (if cmp x y \<le> 0 then x # y # ys else y # js_insert cmp x ys)"

definition js_sort :: "('a \<Rightarrow> 'a \<Rightarrow> int) \<Rightarrow> 'a list \<Rightarrow> 'a list" where
  "js_sort cmp xs = foldr (js_insert cmp) xs []"

text \<open>
  \<open>a.localeCompare(b)\<close> on the timestamps written by \<open>new Date().toISOString()\<close>: they have
  one fixed layout of digits and separators, on which the locale's collation is the
  character-by-character order. The result is negative, zero or positive.
\<close>

fun localeCompare :: "string \<Rightarrow> string \<Rightarrow> int" where
  "localeCompare [] [] = 0"
| "localeCompare [] (y # ys) = - 1"
| "localeCompare (x # xs) [] = 1"
| "localeCompare (x # xs) (y # ys) =
     (if (of_char x :: nat) < of_char y then - 1
      else if (of_char y :: nat) < of_char x then 1
      else localeCompare xs ys)"

section \<open>utils/models.js: the model registry\<close>

record model =
  key :: string
  name :: string
  url :: string
  readyType :: string
  responseType :: string

definition MODEL_REGISTRY :: "model list" where
  "MODEL_REGISTRY =
     [\<lparr>key = ''chatgpt'', name = ''ChatGPT'', url = ''https://chatgpt.com'',
       readyType = ''CHATGPT_READY'', responseType = ''CHATGPT_RESPONSE''\<rparr>,
      \<lparr>key = ''claude'', name = ''Claude'', url = ''https://claude.ai'',
       readyType = ''CLAUDE_READY'', responseType = ''CLAUDE_RESPONSE''\<rparr>,
      \<lparr>key = ''gemini'', name = ''Gemini'', url = ''https://gemini.google.com/app'',
       readyType = ''GEMINI_READY'', responseType = ''GEMINI_RESPONSE''\<rparr>,
      \<lparr>key = ''perplexity'', name = ''Perplexity'', url = ''https://www.perplexity.ai/'',
       readyType = ''PERPLEXITY_READY'', responseType = ''PERPLEXITY_RESPONSE''\<rparr>,
      \<lparr>key = ''deepseek'', name = ''DeepSeek'', url = ''https://chat.deepseek.com/'',
       readyType = ''DEEPSEEK_READY'', responseType = ''DEEPSEEK_RESPONSE''\<rparr>]"

text \<open>The first model, in the order of the registry, with this ready or response type.\<close>

definition getModelByMessageType :: "string \<Rightarrow> model option" where
  "getModelByMessageType t = find (\<lambda>m. readyType m = t \<or> responseType m = t) MODEL_REGISTRY"

definition getModelList :: "string option \<Rightarrow> (string \<times> string) list" where
  "getModelList sourceModel =
     map (\<lambda>m. (key m, model.name m))
         (filter (\<lambda>m. \<not> (truthy sourceModel \<and> Some (key m) = sourceModel)) MODEL_REGISTRY)"

text \<open>
  A message to the service worker, with the fields its handler reads in the branches
  modelled below (the summary, target model and conversation id of a \<open>CAPTURE\<close> message go
  to \<open>handleCapture\<close>).
\<close>

record message =
  type :: string
  sourceModel :: "string option"
  content :: string

section \<open>utils/memory.js: the central memory manager\<close>

subsection \<open>Data\<close>

text \<open>
  The summary handed to \<open>mergeMemory\<close>, at the shape the source documents:
  scalars that may be missing, arrays that may be missing (\<open>Array.isArray\<close> fails on
  \<open>None\<close>), and entities \<open>{ name, type, summary }\<close> whose fields may be missing. An entity
  element that is \<open>null\<close> is skipped by the same test as one without a name, so it is an
  element whose \<open>name\<close> is \<open>None\<close>. The record is polymorphic in the entity element, since the
  JSON path of the parser hands the parsed values over as they are.
\<close>

record incoming =
  name :: "string option"
  type :: "string option"
  summary :: "string option"

record 'e summary =
  topic :: "string option"
  user_goal :: "string option"
  important_facts :: "string list option"
  decisions_made :: "string list option"
  current_task :: "string option"
  entities :: "'e list option"
  open_questions :: "string list option"
  constraints :: "string list option"

record entity =
  name :: string
  type :: string
  summary :: string
  mentions :: nat
  last_updated :: string

record item =
  item_text :: string
  added_at :: string

record memory =
  version :: nat
  conversation_id :: string
  created_at :: string
  updated_at :: string
  topic :: string
  user_goal :: string
  entities :: "entity list"
  decisions :: "item list"
  open_questions :: "item list"
  constraints :: "string list"
  current_task :: string
  iteration_count :: nat

subsection \<open>Size limits\<close>

definition maxEntities :: nat where "maxEntities = 30"
definition maxDecisions :: nat where "maxDecisions = 20"
definition maxOpenQuestions :: nat where "maxOpenQuestions = 10"
definition maxConstraints :: nat where "maxConstraints = 15"

subsection \<open>Empty memory\<close>

text \<open>The clock reading \<open>new Date().toISOString()\<close> is the parameter \<open>now\<close>.\<close>

definition createEmptyMemory :: "string \<Rightarrow> string \<Rightarrow> memory" where
  "createEmptyMemory now conversationId =
     \<lparr>version = 1, conversation_id = conversationId, created_at = now, updated_at = now,
      topic = '''', user_goal = '''', entities = [], decisions = [], open_questions = [],
      constraints = [], current_task = '''', iteration_count = 0\<rparr>"

subsection \<open>Eviction\<close>

definition entityCompare :: "entity \<Rightarrow> entity \<Rightarrow> int" where
  "entityCompare a b =
     (if mentions a \<noteq> mentions b then int (mentions b) - int (mentions a)
      else localeCompare (last_updated a) (last_updated b))"

text \<open>\<open>xs.slice(xs.length - n)\<close> for \<open>n \<le> xs.length\<close> keeps the last \<open>n\<close> elements.\<close>

definition evict :: "memory \<Rightarrow> memory" where
  "evict memory =
     (let m1 = (if length (entities memory) > maxEntities
                then memory\<lparr>entities := take maxEntities (js_sort entityCompare (entities memory))\<rparr>
                else memory);
          m2 = (if length (decisions m1) > maxDecisions
                then m1\<lparr>decisions := drop (length (decisions m1) - maxDecisions) (decisions m1)\<rparr>
                else m1);
          m3 = (if length (open_questions m2) > maxOpenQuestions
                then m2\<lparr>open_questions :=
                          drop (length (open_questions m2) - maxOpenQuestions) (open_questions m2)\<rparr>
                else m2)
      in if length (constraints m3) > maxConstraints
         then m3\<lparr>constraints := drop (length (constraints m3) - maxConstraints) (constraints m3)\<rparr>
         else m3)"

subsection \<open>Duplicate detection\<close>

text \<open>
  Every entry that \<open>mergeMemory\<close> pushes has a non-empty \<open>text\<close> (the field \<open>item_text\<close>), so
  \<open>existingArray[i].text || existingArray[i]\<close> is the entry's \<open>text\<close>.
\<close>

fun isDuplicate :: "item list \<Rightarrow> string \<Rightarrow> bool" where
  "isDuplicate [] newText = False"
| "isDuplicate (e # es) newText =
     (let lower = toLowerCase newText; existing = toLowerCase (item_text e)
      in if existing = lower then True
         else if indexOf existing lower \<noteq> - 1 \<or> indexOf lower existing \<noteq> - 1 then True
         else isDuplicate es newText)"

subsection \<open>Merging a summary into the memory\<close>

definition entityKey :: "string \<Rightarrow> string" where
  "entityKey n = trim (toLowerCase n)"

text \<open>
  The inner loop over \<open>memory.entities\<close>: the first entity whose key is \<open>nameLower\<close> is
  updated and the loop breaks; the flag is \<open>found\<close>.
\<close>

fun updateExisting :: "string \<Rightarrow> incoming \<Rightarrow> string \<Rightarrow> entity list \<Rightarrow> entity list \<times> bool" where
  "updateExisting now inc nameLower [] = ([], False)"
| "updateExisting now inc nameLower (e # es) =
     (if entityKey (name e) = nameLower
      then (e\<lparr>mentions := mentions e + 1,
               last_updated := now,
               summary := js_or (incoming.summary inc) (summary e),
               type := js_or (incoming.type inc) (type e)\<rparr> # es, True)
      else (case updateExisting now inc nameLower es of (es', found) \<Rightarrow> (e # es', found)))"

definition mergeEntity :: "string \<Rightarrow> entity list \<Rightarrow> incoming \<Rightarrow> entity list" where
  "mergeEntity now ents inc =
     (if \<not> truthy (incoming.name inc) then ents
      else (let nameLower = entityKey (the (incoming.name inc))
            in case updateExisting now inc nameLower ents of
                 (ents', True) \<Rightarrow> ents'
               | (ents', False) \<Rightarrow>
                   ents' @ [\<lparr>name = trim (the (incoming.name inc)),
                             type = js_or (incoming.type inc) ''other'',
                             summary = js_or (incoming.summary inc) '''',
                             mentions = 1,
                             last_updated = now\<rparr>]))"

definition mergeItem :: "string \<Rightarrow> item list \<Rightarrow> string \<Rightarrow> item list" where
  "mergeItem now items raw =
     (let dec = trim raw
      in if dec = [] then items
         else if \<not> isDuplicate items dec then items @ [\<lparr>item_text = dec, added_at = now\<rparr>]
         else items)"

definition mergeConstraint :: "string list \<Rightarrow> string \<Rightarrow> string list" where
  "mergeConstraint cs raw =
     (let constraint = trim raw
      in if constraint = [] then cs
         else if constraint \<notin> set cs then cs @ [constraint]
         else cs)"

definition mergeMemory :: "string \<Rightarrow> memory \<Rightarrow> incoming summary \<Rightarrow> memory" where
  "mergeMemory now memory s =
     evict (memory
       \<lparr>topic := js_or (summary.topic s) (topic memory),
        user_goal := js_or (summary.user_goal s) (user_goal memory),
        current_task := js_or (summary.current_task s) (current_task memory),
        updated_at := now,
        iteration_count := iteration_count memory + 1,
        entities := (case summary.entities s of
                       None \<Rightarrow> entities memory
                     | Some incs \<Rightarrow> foldl (mergeEntity now) (entities memory) incs),
        decisions := (case summary.decisions_made s of
                        None \<Rightarrow> decisions memory
                      | Some ds \<Rightarrow> foldl (mergeItem now) (decisions memory) ds),
        open_questions := (case summary.open_questions s of
                             None \<Rightarrow> open_questions memory
                           | Some qs \<Rightarrow> foldl (mergeItem now) (open_questions memory) qs),
        constraints := (case summary.constraints s of
                          None \<Rightarrow> constraints memory
                        | Some cs \<Rightarrow> foldl mergeConstraint (constraints memory) cs)\<rparr>)"

text \<open>The memories that arise from the empty memory by merging summaries.\<close>

inductive reachable :: "memory \<Rightarrow> bool" where
  reachable_empty: "reachable (createEmptyMemory now conversationId)"
| reachable_merge: "reachable m \<Longrightarrow> reachable (mergeMemory now m s)"

definition entityNamesUnique :: "entity list \<Rightarrow> bool" where
  "entityNamesUnique es = distinct (map (\<lambda>e. entityKey (name e)) es)"

definition withinLimits :: "memory \<Rightarrow> bool" where
  "withinLimits m =
     (length (entities m) \<le> 30 \<and> length (decisions m) \<le> 20 \<and>
      length (open_questions m) \<le> 10 \<and> length (constraints m) \<le> 15)"


subsection \<open>Example inputs\<close>

definition noSummary :: "incoming summary" where
  "noSummary =
     \<lparr>summary.topic = None, summary.user_goal = None, important_facts = None,
      decisions_made = None, summary.current_task = None, summary.entities = None,
      summary.open_questions = None, summary.constraints = None\<rparr>"



text \<open>\<open>{entities: [{name: "Paris"}, {name: " ROME "}], decisions_made: ["Go in May"]}\<close>\<close>

definition citiesSummary :: "incoming summary" where
  "citiesSummary = noSummary
     \<lparr>decisions_made := Some [''Go in May''],
      summary.entities := Some [\<lparr>incoming.name = Some ''Paris'', incoming.type = None,
                                incoming.summary = None\<rparr>,
                               \<lparr>incoming.name = Some '' ROME '', incoming.type = None,
                                incoming.summary = None\<rparr>]\<rparr>"

text \<open>Thirty entities with pairwise different keys, and one more.\<close>

definition thirtyNames :: "string list" where
  "thirtyNames = map (\<lambda>c. [c]) ''abcdefghijklmnopqrstuvwxyz0123''"

definition named :: "string \<Rightarrow> incoming" where
  "named n = \<lparr>incoming.name = Some n, incoming.type = None, incoming.summary = None\<rparr>"

definition thirtySummary :: "incoming summary" where
  "thirtySummary = noSummary\<lparr>summary.entities := Some (map named thirtyNames)\<rparr>"

definition newcomerSummary :: "incoming summary" where
  "newcomerSummary = noSummary\<lparr>summary.entities := Some [named ''newcomer'']\<rparr>"

text \<open>The memory after one merge of the thirty entities into the empty memory.\<close>

definition fullMemory :: memory where
  "fullMemory = mergeMemory ''2026-01-01T10:00:00.000Z''
     (createEmptyMemory ''2026-01-01T09:00:00.000Z'' ''conv_1'') thirtySummary"

text \<open>
  Thirty-one entities with the same timestamp, all mentioned once except the second,
  \<open>b\<close>, which was mentioned twice.
\<close>

definition crowdedMemory :: memory where
  "crowdedMemory = (createEmptyMemory ''t0'' ''conv_1'')
     \<lparr>entities := map (\<lambda>n. \<lparr>name = n, type = ''other'', summary = '''',
                              mentions = (if n = ''b'' then 2 else 1), last_updated = ''t1''\<rparr>)
                       (thirtyNames @ [''newcomer''])\<rparr>"

text \<open>Two entities and twenty-one decisions.\<close>

definition chattyMemory :: memory where
  "chattyMemory = (mergeMemory ''t1'' (createEmptyMemory ''t0'' ''conv_1'') citiesSummary)
     \<lparr>decisions := map (\<lambda>n. \<lparr>item_text = n, added_at = ''t1''\<rparr>) (take 21 thirtyNames)\<rparr>"

section \<open>content/chatgpt.js and content/deepseek.js: waiting for the target's response\<close>

subsection \<open>More string primitives\<close>

definition newline :: char where
  "newline = CHR 0x0A"

text \<open>
  \<open>s.split(sep)\<close> for a one-character separator: the pieces between the separators, in
  order; a string without the separator (the empty string too) gives one piece.
\<close>

fun split :: "char \<Rightarrow> string \<Rightarrow> string list" where
  "split sep [] = [[]]"
| "split sep (c # cs) =
     (if c = sep then [] # split sep cs
      else (case split sep cs of
              [] \<Rightarrow> [[c]]
            | piece # pieces \<Rightarrow> (c # piece) # pieces))"

fun join :: "string \<Rightarrow> string list \<Rightarrow> string" where
  "join sep [] = []"
| "join sep [x] = x"
| "join sep (x # y # ys) = x @ sep @ join sep (y # ys)"

subsection \<open>Extracting the new text\<close>

definition extractTargetResponse :: "string \<Rightarrow> string \<Rightarrow> string" where
  "extractTargetResponse beforeText afterText =
     (let raw = trim (drop (length beforeText) afterText);
          meaningful = filter (\<lambda>l. length l > 10) (map trim (split newline raw))
      in trim (join [newline] meaningful))"

text \<open>The DeepSeek script has the same function under the name \<open>extractResponse\<close>.\<close>

definition extractResponse :: "string \<Rightarrow> string \<Rightarrow> string" where
  "extractResponse beforeText afterText =
     (let raw = trim (drop (length beforeText) afterText);
          meaningful = filter (\<lambda>l. length l > 10) (map trim (split newline raw))
      in trim (join [newline] meaningful))"

subsection \<open>The polling loop\<close>

definition POLL_MS :: nat where "POLL_MS = 500"
definition STABLE_NEEDED :: nat where "STABLE_NEEDED = 4"
definition MIN_NEW_CHARS :: nat where "MIN_NEW_CHARS = 50"
definition TIMEOUT_MS :: nat where "TIMEOUT_MS = 90000"

text \<open>
  The promise settles with the extracted text or is rejected with an error message.
\<close>

datatype promise = Resolved string | Rejected string

record poll =
  phase :: nat
  lastLength :: nat
  stableCount :: nat
  elapsed :: nat

text \<open>
  \<open>scopeEl t\<close> is \<open>scopeEl.innerText\<close> at \<open>t\<close> milliseconds after the call. The first tick is
  scheduled \<open>POLL_MS\<close> after the call with \<open>elapsed = 0\<close>, and every tick schedules the next
  one \<open>POLL_MS\<close> later, so the tick that runs with the counter \<open>elapsed\<close> reads the text at
  \<open>elapsed + POLL_MS\<close>. The two scripts differ in the error message and in the name of the
  extraction function, which are the parameters \<open>message\<close> and \<open>extract\<close>.
\<close>

function tick ::
  "string \<Rightarrow> (string \<Rightarrow> string \<Rightarrow> string) \<Rightarrow> (nat \<Rightarrow> string) \<Rightarrow> string \<Rightarrow> poll \<Rightarrow> promise" where
  "tick message extract scopeEl snapshot st =
     (if elapsed st \<ge> TIMEOUT_MS then Rejected message
      else let currentText = scopeEl (elapsed st + POLL_MS) in
        if phase st = 1 then
          (if length currentText > length snapshot + MIN_NEW_CHARS
           then tick message extract scopeEl snapshot
                  (st\<lparr>phase := 2, lastLength := length currentText,
                      elapsed := elapsed st + POLL_MS\<rparr>)
           else tick message extract scopeEl snapshot (st\<lparr>elapsed := elapsed st + POLL_MS\<rparr>))
        else
          (if length currentText = lastLength st
           then (if stableCount st + 1 \<ge> STABLE_NEEDED
                 then Resolved (extract snapshot currentText)
                 else tick message extract scopeEl snapshot
                        (st\<lparr>stableCount := stableCount st + 1,
                            elapsed := elapsed st + POLL_MS\<rparr>))
           else tick message extract scopeEl snapshot
                  (st\<lparr>stableCount := 0, lastLength := length currentText,
                      elapsed := elapsed st + POLL_MS\<rparr>)))"
  by pat_completeness auto
termination
  by (relation "measure (\<lambda>(message, extract, scopeEl, snapshot, st). TIMEOUT_MS - elapsed st)")
     (auto simp: POLL_MS_def)

declare tick.simps [simp del]

definition waitForTargetResponse :: "(nat \<Rightarrow> string) \<Rightarrow> string \<Rightarrow> promise" where
  "waitForTargetResponse scopeEl snapshot =
     tick ''Timed out waiting for ChatGPT's response (target mode).'' extractTargetResponse
       scopeEl snapshot
       \<lparr>phase = 1, lastLength = length (scopeEl 0), stableCount = 0, elapsed = 0\<rparr>"

definition waitForDeepSeekResponse :: "(nat \<Rightarrow> string) \<Rightarrow> string \<Rightarrow> promise" where
  "waitForDeepSeekResponse scopeEl snapshot =
     tick ''Timed out waiting for DeepSeek's response.'' extractResponse
       scopeEl snapshot
       \<lparr>phase = 1, lastLength = length (scopeEl 0), stableCount = 0, elapsed = 0\<rparr>"

subsection \<open>The samples of a run\<close>

text \<open>
  The text read by the \<open>k\<close>-th tick (\<open>k = 1, 2, ...\<close>); the growth test of phase 1; five
  samples in a row of one length, the last of them the \<open>k\<close>-th (the counter \<open>stableCount\<close>
  reaches 4 on the fourth sample that has the length of its predecessor); and the ticks at
  which the loop can end: at most 180 ticks read a sample before the counter \<open>elapsed\<close>
  reaches the timeout.
\<close>

definition sampleAt :: "(nat \<Rightarrow> string) \<Rightarrow> nat \<Rightarrow> string" where
  "sampleAt scopeEl k = scopeEl (k * 500)"

definition grown :: "(nat \<Rightarrow> string) \<Rightarrow> string \<Rightarrow> nat \<Rightarrow> bool" where
  "grown scopeEl snapshot g = (length (sampleAt scopeEl g) > length snapshot + 50)"

definition steady :: "(nat \<Rightarrow> string) \<Rightarrow> nat \<Rightarrow> bool" where
  "steady scopeEl k =
     (\<forall>i \<in> {1..4}. length (sampleAt scopeEl (k - i)) = length (sampleAt scopeEl k))"

definition quiescentAt :: "(nat \<Rightarrow> string) \<Rightarrow> string \<Rightarrow> nat \<Rightarrow> bool" where
  "quiescentAt scopeEl snapshot k =
     (k \<le> 180 \<and> steady scopeEl k \<and> (\<exists>g \<in> {1..k - 4}. grown scopeEl snapshot g))"

text \<open>
  A page of 100 characters whose answer area shows 40 more at the first tick and 70 more
  from the second tick on; and one where the 70 characters change at every tick.
\<close>

definition baseline100 :: string where
  "baseline100 = replicate 100 CHR ''.''"

definition settlingScope :: "nat \<Rightarrow> string" where
  "settlingScope t =
     (if t < 1000 then baseline100 @ replicate 40 CHR ''x'' else baseline100 @ replicate 70 CHR ''x'')"

definition flickeringScope :: "nat \<Rightarrow> string" where
  "flickeringScope t =
     (if t < 1000 then baseline100 @ replicate 40 CHR ''x''
      else baseline100 @ replicate 70 (if t \<in> set [1000, 2000, 3000] then CHR ''a'' else CHR ''b''))"

definition idleScope :: "nat \<Rightarrow> string" where
  "idleScope t = baseline100"

section \<open>utils/summarize-generic.js: decoding the target's reply\<close>

subsection \<open>String primitives of the parser\<close>

text \<open>
  \<open>s.slice(a, b)\<close> for indices that are not negative: the characters from \<open>a\<close> up to \<open>b\<close>,
  none when \<open>b \<le> a\<close>. \<open>s.slice(a)\<close> is \<open>drop a s\<close>.
\<close>

definition slice :: "string \<Rightarrow> int \<Rightarrow> int \<Rightarrow> string" where
  "slice s a b = take (nat b - nat a) (drop (nat a) s)"

text \<open>Line terminators of the regular expressions (\<open>^\<close>, \<open>$\<close> and \<open>.\<close>), on the ASCII range.\<close>

definition isLineTerminator :: "char \<Rightarrow> bool" where
  "isLineTerminator c = (c = CHR 0x0A \<or> c = CHR 0x0D)"

subsection \<open>Parsed JSON\<close>

text \<open>
  The values \<open>JSON.parse\<close> returns. A number is held by its decimal rendering
  \<open>String(n)\<close>, which is \<open>0\<close> exactly for the falsy numbers \<open>0\<close> and \<open>-0\<close>. An object is the
  list of its own properties. \<open>JSON.parse\<close> itself belongs to the platform: it is the
  parameter \<open>JSON_parse\<close> of the functions below, \<open>None\<close> when it throws.
\<close>

datatype json =
    JNull
  | JBool bool
  | JNum string
  | JStr string
  | JArr "json list"
  | JObj "(string \<times> json) list"

fun truthyJ :: "json \<Rightarrow> bool" where
  "truthyJ JNull = False"
| "truthyJ (JBool b) = b"
| "truthyJ (JNum n) = (n \<noteq> ''0'')"
| "truthyJ (JStr s) = (s \<noteq> [])"
| "truthyJ (JArr xs) = True"
| "truthyJ (JObj kvs) = True"

text \<open>\<open>v.k\<close> for a value that is not \<open>null\<close>: only objects have the properties read here.\<close>

fun getProp :: "json \<Rightarrow> string \<Rightarrow> json option" where
  "getProp (JObj kvs) k = map_of kvs k"
| "getProp v k = None"

text \<open>\<open>String(v)\<close>; an array is joined with commas, \<open>null\<close> elements rendered empty.\<close>

fun js_String :: "json \<Rightarrow> string" where
  "js_String JNull = ''null''"
| "js_String (JBool b) = (if b then ''true'' else ''false'')"
| "js_String (JNum n) = n"
| "js_String (JStr s) = s"
| "js_String (JArr xs) = join '','' (map (\<lambda>x. if x = JNull then [] else js_String x) xs)"
| "js_String (JObj kvs) = ''[object Object]''"

subsection \<open>parseSummary\<close>

text \<open>
  \<open>.replace(/^```(?:json)?[\r\n]*/im, "")\<close>: the first fence at the start of a line goes,
  with an optional \<open>json\<close> in any case and the line breaks after it. The flag says whether
  the current position is at the start of a line.
\<close>

fun stripOpeningFence :: "bool \<Rightarrow> string \<Rightarrow> string" where
  "stripOpeningFence atLineStart [] = []"
| "stripOpeningFence atLineStart (c # cs) =
     (if atLineStart \<and> prefix ''```'' (c # cs)
      then (let rest = drop 3 (c # cs);
                rest' = (if toLowerCase (take 4 rest) = ''json'' then drop 4 rest else rest)
            in dropWhile isLineTerminator rest')
      else c # stripOpeningFence (isLineTerminator c) cs)"

text \<open>
  \<open>.replace(/[\r\n]*```\s*$/im, "")\<close>: the leftmost match goes. At a position the match
  takes the line breaks there, the fence, and then white space up to the end of the text
  or, failing that, up to the last line break in that white space (\<open>$\<close> holds before a
  line terminator); with neither there is no match at this position. \<open>closingFenceAt s\<close> is
  what is left of \<open>s\<close> after a match at its start.
\<close>

definition closingFenceAt :: "string \<Rightarrow> string option" where
  "closingFenceAt s =
     (let afterBreaks = dropWhile isLineTerminator s
      in if prefix ''```'' afterBreaks
         then (let rest = drop 3 afterBreaks;
                   w = takeWhile isSpace rest
               in if length w = length rest then Some []
                  else if \<exists>x \<in> set w. isLineTerminator x
                  then Some (drop (length (dropWhile (\<lambda>x. \<not> isLineTerminator x) (rev w)) - 1) rest)
                  else None)
         else None)"

fun stripClosingFence :: "string \<Rightarrow> string" where
  "stripClosingFence [] = []"
| "stripClosingFence (c # cs) =
     (case closingFenceAt (c # cs) of
        Some rest \<Rightarrow> rest
      | None \<Rightarrow> c # stripClosingFence cs)"

definition emptyJsonSummary :: "json summary" where
  "emptyJsonSummary =
     \<lparr>summary.topic = Some '''', summary.user_goal = Some '''', important_facts = Some [],
      decisions_made = Some [], summary.current_task = Some '''', summary.entities = Some [],
      summary.open_questions = Some [], summary.constraints = Some []\<rparr>"

text \<open>\<open>String(obj.k || "")\<close> and \<open>Array.isArray(obj.k) ? obj.k.map(String) : []\<close>.\<close>

definition stringField :: "json \<Rightarrow> string \<Rightarrow> string" where
  "stringField obj k =
     (case getProp obj k of None \<Rightarrow> [] | Some v \<Rightarrow> if truthyJ v then js_String v else [])"

definition stringArrayField :: "json \<Rightarrow> string \<Rightarrow> string list" where
  "stringArrayField obj k = (case getProp obj k of Some (JArr xs) \<Rightarrow> map js_String xs | _ \<Rightarrow> [])"

definition hasName :: "json \<Rightarrow> bool" where
  "hasName e = (truthyJ e \<and> (case getProp e ''name'' of None \<Rightarrow> False | Some v \<Rightarrow> truthyJ v))"

text \<open>
  Reading a property of \<open>null\<close> throws inside the \<open>try\<close>, as a failing \<open>JSON.parse\<close> does:
  both end in the \<open>catch\<close> branch, which keeps the raw text as \<open>current_task\<close>.
\<close>

definition parseSummary :: "(string \<Rightarrow> json option) \<Rightarrow> string \<Rightarrow> json summary" where
  "parseSummary JSON_parse rawText =
     (let cleaned = trim (stripClosingFence (stripOpeningFence True rawText))
      in case JSON_parse cleaned of
           None \<Rightarrow> emptyJsonSummary\<lparr>summary.current_task := Some rawText\<rparr>
         | Some JNull \<Rightarrow> emptyJsonSummary\<lparr>summary.current_task := Some rawText\<rparr>
         | Some obj \<Rightarrow>
             \<lparr>summary.topic = Some (stringField obj ''topic''),
              summary.user_goal = Some (stringField obj ''user_goal''),
              important_facts = Some (stringArrayField obj ''important_facts''),
              decisions_made = Some (stringArrayField obj ''decisions_made''),
              summary.current_task = Some (stringField obj ''current_task''),
              summary.entities = Some (case getProp obj ''entities'' of
                                         Some (JArr es) \<Rightarrow> filter hasName es
                                       | _ \<Rightarrow> []),
              summary.open_questions = Some (stringArrayField obj ''open_questions''),
              summary.constraints = Some (stringArrayField obj ''constraints'')\<rparr>)"

subsection \<open>The labeled memory block\<close>

definition splitSemicolons :: "string \<Rightarrow> string list" where
  "splitSemicolons str =
     (if str = [] then [] else filter (\<lambda>s. length s > 0) (map trim (split CHR '';'' str)))"

definition parseEntityEntry :: "string \<Rightarrow> incoming option" where
  "parseEntityEntry entry =
     (let first = indexOf entry ''/''
      in if first = - 1
         then (if trim entry \<noteq> []
               then Some \<lparr>incoming.name = Some (trim entry), incoming.type = Some ''other'',
                          incoming.summary = Some ''''\<rparr>
               else None)
         else (let name = trim (slice entry 0 first);
                   rest = drop (nat (first + 1)) entry;
                   second = indexOf rest ''/''
               in if second = - 1
                  then (if name \<noteq> []
                        then Some \<lparr>incoming.name = Some name,
                                   incoming.type = Some (js_or (Some (trim rest)) ''other''),
                                   incoming.summary = Some ''''\<rparr>
                        else None)
                  else (let type = js_or (Some (trim (slice rest 0 second))) ''other'';
                            summary = trim (drop (nat (second + 1)) rest)
                        in if name \<noteq> []
                           then Some \<lparr>incoming.name = Some name, incoming.type = Some type,
                                      incoming.summary = Some summary\<rparr>
                           else None)))"

text \<open>\<open>line.replace(/^[-*]\s*/, "")\<close>: a leading bullet and the white space after it.\<close>

definition stripBullet :: "string \<Rightarrow> string" where
  "stripBullet line =
     (case line of
        [] \<Rightarrow> []
      | c # cs \<Rightarrow> if c = CHR ''-'' \<or> c = CHR ''*'' then dropWhile isSpace cs else line)"

text \<open>
  One round of the loop over the lines: \<open>fieldsObj\<close> is the object \<open>fields\<close> of the values
  read so far,
  a later line with the same key overwrites an earlier one.
\<close>

definition readLine :: "(string \<rightharpoonup> string) \<Rightarrow> string \<Rightarrow> (string \<rightharpoonup> string)" where
  "readLine fieldsObj rawLine =
     (let line = trim rawLine
      in if line = [] then fieldsObj
         else (let line' = stripBullet line;
                   colonIdx = indexOf line' '':''
               in if colonIdx = - 1 then fieldsObj
                  else (let key = toLowerCase (trim (slice line' 0 colonIdx));
                            val = trim (drop (nat (colonIdx + 1)) line')
                        in if val = [] then fieldsObj else fieldsObj(key \<mapsto> val))))"

definition readFields :: "string \<Rightarrow> (string \<rightharpoonup> string)" where
  "readFields blockStr = foldl readLine Map.empty (split newline blockStr)"

text \<open>\<open>fields[k1] || fields[k2] || ... || ""\<close>: every stored value is a non-empty string.\<close>

fun firstField :: "(string \<rightharpoonup> string) \<Rightarrow> string list \<Rightarrow> string" where
  "firstField fieldsObj [] = []"
| "firstField fieldsObj (k # ks) = js_or (fieldsObj k) (firstField fieldsObj ks)"

definition parseMemoryBlock :: "string \<Rightarrow> incoming summary option" where
  "parseMemoryBlock blockStr =
     (let fieldsObj = readFields blockStr;
          topic = firstField fieldsObj [''topic''];
          userGoal = firstField fieldsObj [''goal'', ''user goal'', ''user_goal''];
          currentTask = firstField fieldsObj [''task'', ''current task'', ''current_task''];
          factsRaw = firstField fieldsObj [''facts'', ''important facts'', ''important_facts''];
          decsRaw = firstField fieldsObj [''decisions'', ''decisions made'', ''decisions_made''];
          openRaw = firstField fieldsObj [''open'', ''open questions'', ''open_questions''];
          consRaw = firstField fieldsObj [''constraints''];
          entsRaw = firstField fieldsObj [''entities''];
          facts = splitSemicolons factsRaw;
          decisions = splitSemicolons decsRaw;
          openQs = splitSemicolons openRaw;
          constraints = splitSemicolons consRaw;
          entities = List.map_filter parseEntityEntry (splitSemicolons entsRaw)
      in if topic = [] \<and> userGoal = [] \<and> currentTask = [] \<and>
            length facts = 0 \<and> length decisions = 0 \<and> length entities = 0
         then None
         else Some \<lparr>summary.topic = Some topic,
                    summary.user_goal = Some userGoal,
                    important_facts = Some facts,
                    decisions_made = Some decisions,
                    summary.current_task = Some currentTask,
                    summary.entities = Some entities,
                    summary.open_questions = Some openQs,
                    summary.constraints = Some constraints\<rparr>)"

subsection \<open>parseTargetResponse\<close>

definition MEMORY_START_MARKER :: string where
  "MEMORY_START_MARKER = ''---MEMORY---''"

definition MEMORY_END_MARKER :: string where
  "MEMORY_END_MARKER = ''---END MEMORY---''"

text \<open>
  The memory update is the summary of the JSON path, with the entities as they were
  parsed, or the summary of the labeled block.
\<close>

datatype update = FromJson "json summary" | FromBlock "incoming summary"

record parsed =
  reply :: string
  memoryUpdate :: "update option"

definition hasData :: "json summary \<Rightarrow> bool" where
  "hasData jsonParsed =
     (truthy (summary.topic jsonParsed) \<or> truthy (summary.user_goal jsonParsed) \<or>
      truthy (summary.current_task jsonParsed) \<or>
      length (the (summary.entities jsonParsed)) > 0 \<or>
      length (the (decisions_made jsonParsed)) > 0)"

definition parseTargetResponse :: "(string \<Rightarrow> json option) \<Rightarrow> string \<Rightarrow> parsed" where
  "parseTargetResponse JSON_parse fullText =
     (if fullText = [] then \<lparr>reply = [], memoryUpdate = None\<rparr>
      else (let startIdx = indexOf fullText MEMORY_START_MARKER;
                endIdx = indexOf fullText MEMORY_END_MARKER
            in if startIdx = - 1 \<or> endIdx = - 1 \<or> endIdx \<le> startIdx
               then \<lparr>reply = trim fullText, memoryUpdate = None\<rparr>
               else (let reply = trim (slice fullText 0 startIdx);
                         blockStr = trim (slice fullText
                                      (startIdx + int (length MEMORY_START_MARKER)) endIdx)
                     in if take 1 blockStr = ''{''
                        then (let jsonParsed = parseSummary JSON_parse blockStr
                              in \<lparr>reply = reply,
                                  memoryUpdate = (if hasData jsonParsed
                                                  then Some (FromJson jsonParsed) else None)\<rparr>)
                        else \<lparr>reply = reply,
                              memoryUpdate = map_option FromBlock (parseMemoryBlock blockStr)\<rparr>)))"

subsection \<open>Example replies\<close>

definition takeReply :: string where
  "takeReply = ''Sure, here's my take...'' @ [newline] @ ''---MEMORY---'' @ [newline] @
               ''Topic: X'' @ [newline] @ ''---END MEMORY---''"

definition openOnlyBlock :: string where
  "openOnlyBlock = ''Open: which hotel?; which week?'' @ [newline] @
                   ''Constraints: no backend; no API keys''"

definition openOnlyReply :: string where
  "openOnlyReply = ''Noted.'' @ [newline] @ ''---MEMORY---'' @ [newline] @ openOnlyBlock @
                   [newline] @ ''---END MEMORY---''"

text \<open>
  A reply whose block is JSON with open questions and constraints only, and a stand-in
  for \<open>JSON.parse\<close> that knows the value of this one text.
\<close>

definition openOnlyJson :: string where
  \<open>openOnlyJson = ''{"open_questions": ["which hotel?"], "constraints": ["no backend"]}''\<close>

definition openOnlyJsonReply :: string where
  "openOnlyJsonReply = ''Noted.'' @ [newline] @ ''---MEMORY---'' @ [newline] @ openOnlyJson @
                       [newline] @ ''---END MEMORY---''"

definition parseOpenOnly :: "string \<Rightarrow> json option" where
  "parseOpenOnly s =
     (if s = openOnlyJson
      then Some (JObj [(''open_questions'', JArr [JStr ''which hotel?'']),
                       (''constraints'', JArr [JStr ''no backend''])])
      else None)"

definition reversedReply :: string where
  "reversedReply = ''Done. ---END MEMORY---'' @ [newline] @ ''Topic: X'' @ [newline] @
                   ''---MEMORY--- ''"

text \<open>
  For a reply with well-formed markers: the text \<open>blockStr\<close> between them that
  \<open>parseTargetResponse\<close> hands to the block parsers, and the text \<open>cleaned\<close> that
  \<open>parseSummary\<close> hands to \<open>JSON.parse\<close>.
\<close>

definition wellFormed :: "string \<Rightarrow> bool" where
  "wellFormed fullText =
     (indexOf fullText MEMORY_START_MARKER \<noteq> - 1 \<and> indexOf fullText MEMORY_END_MARKER \<noteq> - 1 \<and>
      indexOf fullText MEMORY_START_MARKER < indexOf fullText MEMORY_END_MARKER)"

definition blockOf :: "string \<Rightarrow> string" where
  "blockOf fullText =
     trim (slice fullText (indexOf fullText MEMORY_START_MARKER + 12)
                          (indexOf fullText MEMORY_END_MARKER))"

definition cleanedOf :: "string \<Rightarrow> string" where
  "cleanedOf rawText = trim (stripClosingFence (stripOpeningFence True rawText))"

section \<open>utils/format.js: the context block\<close>

subsection \<open>Regular expressions of the meta-instruction filter\<close>

text \<open>
  The patterns use literals (matched without regard to case, flag \<open>i\<close>), the word
  boundary \<open>\b\<close>, \<open>\s*\<close>, \<open>\s+\<close>, \<open>.*\<close>, optional groups and alternatives. A pattern is a
  list of such pieces. Matching is described by the set of positions a piece can end at:
  a state is the character before the position (none at the start of the text) and the
  text from the position on, and \<open>RegExp.prototype.test\<close> asks whether the whole pattern
  can end anywhere from some start position.
\<close>

datatype cls = WhiteSpace | AnyButLineTerminator

datatype rx =
    Lit string
  | Boundary
  | Star cls
  | Plus cls
  | Opt "rx list"
  | Alt "rx list list"

fun inClass :: "cls \<Rightarrow> char \<Rightarrow> bool" where
  "inClass WhiteSpace c = isSpace c"
| "inClass AnyButLineTerminator c = (\<not> isLineTerminator c)"

text \<open>\<open>\w\<close> is \<open>[A-Za-z0-9_]\<close>; \<open>\b\<close> holds where exactly one side is a word character.\<close>

definition isWordChar :: "char \<Rightarrow> bool" where
  "isWordChar c =
     (c \<in> set ''abcdefghijklmnopqrstuvwxyzABCDEFGHIJKLMNOPQRSTUVWXYZ0123456789_'')"

definition wordBefore :: "char option \<Rightarrow> bool" where
  "wordBefore p = (case p of None \<Rightarrow> False | Some c \<Rightarrow> isWordChar c)"

definition wordAfter :: "string \<Rightarrow> bool" where
  "wordAfter rest = (case rest of [] \<Rightarrow> False | c # cs \<Rightarrow> isWordChar c)"

fun matchLit :: "string \<Rightarrow> char option \<times> string \<Rightarrow> (char option \<times> string) list" where
  "matchLit [] st = [st]"
| "matchLit (l # ls) (p, []) = []"
| "matchLit (l # ls) (p, c # cs) =
     (if lowerChar c = lowerChar l then matchLit ls (Some c, cs) else [])"

text \<open>The states after no, one, two, ... characters of the class.\<close>

fun runs :: "cls \<Rightarrow> char option \<times> string \<Rightarrow> (char option \<times> string) list" where
  "runs cl (p, []) = [(p, [])]"
| "runs cl (p, c # cs) = (p, c # cs) # (if inClass cl c then runs cl (Some c, cs) else [])"

fun matchRx :: "rx \<Rightarrow> char option \<times> string \<Rightarrow> (char option \<times> string) list"
  and matchSeq :: "rx list \<Rightarrow> char option \<times> string \<Rightarrow> (char option \<times> string) list"
  and matchAlts :: "rx list list \<Rightarrow> char option \<times> string \<Rightarrow> (char option \<times> string) list"
where
  "matchRx (Lit s) st = matchLit s st"
| "matchRx Boundary st = (if wordBefore (fst st) \<noteq> wordAfter (snd st) then [st] else [])"
| "matchRx (Star cl) st = runs cl st"
| "matchRx (Plus cl) st = tl (runs cl st)"
| "matchRx (Opt rs) st = st # matchSeq rs st"
| "matchRx (Alt alts) st = matchAlts alts st"
| "matchSeq [] st = [st]"
| "matchSeq (r # rs) st = concat (map (matchSeq rs) (matchRx r st))"
| "matchAlts [] st = []"
| "matchAlts (a # as) st = matchSeq a st @ matchAlts as st"

fun testFrom :: "rx list \<Rightarrow> char option \<Rightarrow> string \<Rightarrow> bool" where
  "testFrom r p [] = (matchSeq r (p, []) \<noteq> [])"
| "testFrom r p (c # cs) = (matchSeq r (p, c # cs) \<noteq> [] \<or> testFrom r (Some c) cs)"

definition test :: "rx list \<Rightarrow> string \<Rightarrow> bool" where
  "test r s = testFrom r None s"

subsection \<open>The meta-instruction filter\<close>

definition META_PATTERNS :: "rx list list" where
  "META_PATTERNS =
     [[Boundary, Lit ''json'', Boundary],
      [Boundary, Lit ''structure'', Opt [Lit ''d''], Star WhiteSpace,
       Alt [[Lit ''output''], [Lit ''format''], [Lit ''data'']], Boundary],
      [Boundary, Lit ''no'', Plus WhiteSpace,
       Alt [[Lit ''additional''], [Lit ''extra''], [Lit ''other'']], Plus WhiteSpace,
       Lit ''text'', Boundary],
      [Boundary, Lit ''exact'', Plus WhiteSpace, Opt [Lit ''provided'', Plus WhiteSpace],
       Lit ''structure'', Boundary],
      [Boundary, Lit ''valid'', Plus WhiteSpace, Lit ''json'', Boundary],
      [Boundary, Lit ''formatting'', Plus WhiteSpace,
       Alt [[Lit ''outside''], [Lit ''beyond'']], Boundary],
      [Boundary, Lit ''browser'', Plus WhiteSpace, Lit ''extension'', Boundary],
      [Boundary, Lit ''summariz'', Alt [[Lit ''e''], [Lit ''ing'']], Plus WhiteSpace,
       Alt [[Lit ''the''], [Lit ''our''], [Lit ''this'']], Plus WhiteSpace,
       Lit ''conversation'', Boundary],
      [Boundary, Lit ''must'', Plus WhiteSpace, Lit ''follow'', Plus WhiteSpace,
       Alt [[Lit ''the''], [Lit ''this'']], Plus WhiteSpace, Star AnyButLineTerminator,
       Lit ''structure'', Boundary],
      [Boundary, Lit ''no'', Plus WhiteSpace, Lit ''markdown'', Boundary]]"

definition isMetaInstruction :: "string \<Rightarrow> bool" where
  "isMetaInstruction text = list_ex (\<lambda>pattern. test pattern text) META_PATTERNS"

subsection \<open>The formatter\<close>

text \<open>The dash U+2014 of the fixed sentences, in its UTF-8 bytes.\<close>

definition emDash :: string where
  "emDash = [CHR 0xE2, CHR 0x80, CHR 0x94]"

text \<open>
  \<open>x.text || x\<close> inside a string concatenation: an entry whose \<open>text\<close> is empty is
  rendered as the object itself.
\<close>

definition itemLine :: "item \<Rightarrow> string" where
  "itemLine x = ''- '' @ (if item_text x \<noteq> [] then item_text x else ''[object Object]'')"

definition entityLine :: "entity \<Rightarrow> string" where
  "entityLine e =
     ''- '' @ name e @ '' ('' @ type e @ '')'' @
     (if summary e \<noteq> [] then '': '' @ summary e else [])"

text \<open>The array \<open>lines\<close> when the function returns; the pushes are in source order.\<close>

definition formatLines :: "memory \<Rightarrow> string list" where
  "formatLines memory =
     (let filtered = filter (\<lambda>c. \<not> isMetaInstruction c) (constraints memory);
          task = (if current_task memory \<noteq> [] \<and> isMetaInstruction (current_task memory)
                  then [] else current_task memory)
      in [''Hey '' @ emDash @
            '' I'm picking up a conversation that was happening on another AI. Here are the notes from that session so you have context:'',
          '''',
          ''---''] @
         (if topic memory \<noteq> [] then [''Topic: '' @ topic memory] else []) @
         (if user_goal memory \<noteq> [] then [''User goal: '' @ user_goal memory] else []) @
         (if length (entities memory) > 0
          then ''Key entities:'' # map entityLine (entities memory) else []) @
         (if length (decisions memory) > 0
          then ''Decisions made:'' # map itemLine (decisions memory) else []) @
         (if length (open_questions memory) > 0
          then ''Open questions:'' # map itemLine (open_questions memory) else []) @
         (if length (constraints memory) > 0 \<and> length filtered > 0
          then ''Constraints:'' # map (\<lambda>f. ''- '' @ f) filtered else []) @
         (if task \<noteq> [] then [''Current task: '' @ task] else []) @
         [''---'',
          '''',
          ''The notes above are background context only '' @ emDash @
            '' they are not instructions for how to format your reply.'',
          ''''] @
         (if task \<noteq> []
          then [''Please continue helping with: '' @ task @ ''. Respond naturally '' @ emDash @
                '' summarize your understanding briefly, then help move things forward.'']
          else [''Respond naturally '' @ emDash @
                '' share your thoughts on the above context and ask what I'd like to work on next.'']) @
         ['''',
          ''At the end of your reply, include a brief memory note so I can track what we covered. Use this exact format:'',
          '''',
          ''---MEMORY---'',
          ''Topic: (one sentence about what this conversation covers)'',
          ''Goal: (what the user is trying to accomplish)'',
          ''Facts: (key fact 1); (key fact 2); (key fact 3)'',
          ''Decisions: (decision 1); (decision 2)'',
          ''Task: (what we are working on right now)'',
          ''Entities: (name/type/one sentence); (name/type/one sentence)'',
          ''Open: (unresolved question 1); (unresolved question 2)'',
          ''Constraints: (hard constraint 1); (hard constraint 2)'',
          ''---END MEMORY---''])"

definition formatContextBlock :: "memory \<Rightarrow> string" where
  "formatContextBlock memory = join [newline] (formatLines memory)"

text \<open>A memory with two meta-instructions among its constraints and one as its task.\<close>

definition pollutedMemory :: memory where
  "pollutedMemory = (createEmptyMemory ''t0'' ''conv_1'')
     \<lparr>topic := ''Trip planning'',
      constraints := [''Reply must be valid JSON only'', ''no backend'', ''Add no other text''],
      current_task := ''Summarizing the conversation for a browser extension''\<rparr>"

section \<open>background.js: the service worker\<close>

text \<open>
  The two maps from the id of a target tab: \<open>pendingContext\<close> holds
  \<open>{ contextBlock, sourceTabId, conversationId }\<close> and \<open>pendingReview\<close> holds
  \<open>{ sourceTabId, conversationId }\<close>.
\<close>

record review =
  sourceTabId :: nat
  conversationId :: string

record handoff = review +
  contextBlock :: string

record worker =
  pendingContext :: "nat \<rightharpoonup> handoff"
  pendingReview :: "nat \<rightharpoonup> review"

text \<open>
  What the handler passes to \<open>sendResponse\<close>: the model list, the \<open>INJECT\<close> object with its
  context block and conversation id, or \<open>null\<close>.
\<close>

datatype response = ModelList "(string \<times> string) list" | INJECT string string | Null

text \<open>
  The outcome of handling one message: the maps afterwards, the argument of
  \<open>sendResponse\<close> if it was called, and the critique sent to a tab by \<open>sendCritiqueToTab\<close>,
  if any. The merge of a memory update into the stored memory, which the response branch
  starts and does not wait for, touches neither map.
\<close>

record handled =
  state :: worker
  sent :: "response option"
  critique :: "(nat \<times> string) option"

text \<open>
  \<open>senderTabId = sender.tab && sender.tab.id\<close> is \<open>None\<close> for a sender without a tab. The
  test \<open>senderTabId && ...\<close> also fails on the id \<open>0\<close>; the browser numbers its tabs from 1.
\<close>

definition tabTruthy :: "nat option \<Rightarrow> bool" where
  "tabTruthy senderTabId = (case senderTabId of None \<Rightarrow> False | Some n \<Rightarrow> n \<noteq> 0)"

definition critiqueText :: "string \<Rightarrow> string \<Rightarrow> string" where
  "critiqueText modelName response =
     modelName @ '' reviewed your answer. Revise your response considering this critique:'' @
     [newline, newline] @ response"

definition onMessage ::
  "(string \<Rightarrow> json option) \<Rightarrow> worker \<Rightarrow> message \<Rightarrow> nat option \<Rightarrow> handled" where
  "onMessage JSON_parse w message senderTabId =
     (if message.type message = ''GET_MODELS''
      then \<lparr>state = w, sent = Some (ModelList (getModelList (sourceModel message))),
            critique = None\<rparr>
      else if message.type message = ''CAPTURE''
      then \<lparr>state = w, sent = None, critique = None\<rparr>
      else (case getModelByMessageType (message.type message) of
              None \<Rightarrow> \<lparr>state = w, sent = None, critique = None\<rparr>
            | Some m \<Rightarrow>
                if message.type message = readyType m
                then (case (if tabTruthy senderTabId then pendingContext w (the senderTabId)
                            else None) of
                        Some pending \<Rightarrow>
                          \<lparr>state = w
                             \<lparr>pendingContext := (pendingContext w)(the senderTabId := None),
                              pendingReview := (pendingReview w)
                                (the senderTabId \<mapsto>
                                   \<lparr>sourceTabId = sourceTabId pending,
                                    conversationId = conversationId pending\<rparr>)\<rparr>,
                           sent = Some (INJECT (contextBlock pending) (conversationId pending)),
                           critique = None\<rparr>
                      | None \<Rightarrow> \<lparr>state = w, sent = Some Null, critique = None\<rparr>)
                else if message.type message = responseType m
                then (case (if tabTruthy senderTabId then pendingReview w (the senderTabId)
                            else None) of
                        Some review \<Rightarrow>
                          \<lparr>state = w\<lparr>pendingReview :=
                                        (pendingReview w)(the senderTabId := None)\<rparr>,
                           sent = None,
                           critique = Some (sourceTabId review,
                             critiqueText (model.name m)
                               (reply (parseTargetResponse JSON_parse (content message))))\<rparr>
                      | None \<Rightarrow> \<lparr>state = w, sent = None, critique = None\<rparr>)
                else \<lparr>state = w, sent = None, critique = None\<rparr>))"

text \<open>
  The callback of \<open>chrome.tabs.create\<close> in \<open>handleCapture\<close>:
  \<open>pendingContext[tab.id] = { contextBlock, sourceTabId, conversationId }\<close>.
\<close>

definition installPending :: "worker \<Rightarrow> nat \<Rightarrow> handoff \<Rightarrow> worker" where
  "installPending w tabId entry = w\<lparr>pendingContext := (pendingContext w)(tabId \<mapsto> entry)\<rparr>"

definition initialWorker :: worker where
  "initialWorker = \<lparr>pendingContext = Map.empty, pendingReview = Map.empty\<rparr>"

text \<open>
  The states of the worker: it starts with both maps empty, handles messages, and gets
  the callback for a tab it has opened. The browser gives a new tab an id that no other
  tab has, so the id of the callback is not the id of a tab under review.
\<close>

inductive reachableWorker :: "worker \<Rightarrow> bool" where
  worker_start: "reachableWorker initialWorker"
| worker_message:
    "reachableWorker w \<Longrightarrow> reachableWorker (state (onMessage JSON_parse w message senderTabId))"
| worker_opened:
    "reachableWorker w \<Longrightarrow> tabId \<notin> dom (pendingReview w) \<Longrightarrow>
     reachableWorker (installPending w tabId entry)"

definition isReady :: "message \<Rightarrow> bool" where
  "isReady message = (message.type message \<in> set (map readyType MODEL_REGISTRY))"

text \<open>A tab 42 opened for the source tab 7, and the \<open>CLAUDE_READY\<close> message.\<close>

definition tripHandoff :: handoff where
  "tripHandoff = \<lparr>sourceTabId = 7, conversationId = ''conv_1'', contextBlock = ''Hey''\<rparr>"

definition waitingWorker :: worker where
  "waitingWorker = installPending initialWorker 42 tripHandoff"

definition claudeReady :: message where
  "claudeReady = \<lparr>message.type = ''CLAUDE_READY'', sourceModel = None, content = ''''\<rparr>"

subsection \<open>Counting mentions\<close>









section \<open>Properties of the memory manager\<close>

subsection \<open>Strings\<close>

lemma isSpace_lowerChar: "isSpace (lowerChar c) = isSpace c"
  unfolding lowerChar_def isSpace_def
  by (auto split: option.splits if_splits)

lemma dropWhile_twice: "dropWhile P (dropWhile P xs) = dropWhile P xs"
  by (induction xs) auto

lemma dropWhile_after_trim:
  "dropWhile P (rev (dropWhile P (rev (dropWhile P xs)))) = rev (dropWhile P (rev (dropWhile P xs)))"
proof (cases "dropWhile P xs")
  case Nil
  show ?thesis unfolding Nil by simp
next
  case (Cons y ys)
  then have ny: "\<not> P y" by (metis dropWhile_eq_Cons_conv)
  have "rev (dropWhile P (rev (y # ys))) = y # rev (dropWhile P (rev ys))"
    using ny by (simp add: dropWhile_append)
  then show ?thesis using Cons ny by simp
qed

lemma trim_trim: "trim (trim s) = trim s"
  unfolding trim_def
  by (simp add: dropWhile_after_trim dropWhile_twice)

lemma toLowerCase_trim: "toLowerCase (trim s) = trim (toLowerCase s)"
proof -
  have c: "isSpace \<circ> lowerChar = isSpace" by (rule ext) (simp add: isSpace_lowerChar)
  show ?thesis
    unfolding trim_def toLowerCase_def
    by (simp add: dropWhile_map rev_map c)
qed

lemma entityKey_trim: "entityKey (trim n) = entityKey n"
  by (simp add: entityKey_def toLowerCase_trim trim_trim)

subsection \<open>The entity loop keeps the keys distinct\<close>

lemma updateExisting_keys:
  "map (\<lambda>e. entityKey (name e)) (fst (updateExisting now inc k es)) =
   map (\<lambda>e. entityKey (name e)) es"
  by (induction es) (auto split: prod.splits)

lemma updateExisting_length: "length (fst (updateExisting now inc k es)) = length es"
  by (induction es) (auto split: prod.splits)

lemma updateExisting_found:
  "snd (updateExisting now inc k es) \<longleftrightarrow> k \<in> set (map (\<lambda>e. entityKey (name e)) es)"
  by (induction es) (auto split: prod.splits)

lemma mergeEntity_unique:
  assumes u: "entityNamesUnique es"
  shows "entityNamesUnique (mergeEntity now es inc)"
proof -
  obtain es' f where r: "updateExisting now inc (entityKey (the (incoming.name inc))) es = (es', f)"
    by (cases "updateExisting now inc (entityKey (the (incoming.name inc))) es")
  have k: "map (\<lambda>e. entityKey (name e)) es' = map (\<lambda>e. entityKey (name e)) es"
    using updateExisting_keys [of now inc "entityKey (the (incoming.name inc))" es] r by simp
  have f: "f \<longleftrightarrow> entityKey (the (incoming.name inc)) \<in> set (map (\<lambda>e. entityKey (name e)) es)"
    using updateExisting_found [of now inc "entityKey (the (incoming.name inc))" es] r by simp
  show ?thesis
    using u k f r
    by (auto simp: mergeEntity_def entityNamesUnique_def entityKey_trim Let_def)
qed

lemma foldl_mergeEntity_unique:
  "entityNamesUnique es \<Longrightarrow> entityNamesUnique (foldl (mergeEntity now) es incs)"
  by (induction incs arbitrary: es) (auto simp: mergeEntity_unique)

subsection \<open>Sorting and eviction\<close>

lemma mset_js_insert: "mset (js_insert cmp x ys) = add_mset x (mset ys)"
  by (induction ys) auto

lemma mset_js_sort: "mset (js_sort cmp xs) = mset xs"
  unfolding js_sort_def by (induction xs) (auto simp: mset_js_insert)

lemma length_js_sort: "length (js_sort cmp xs) = length xs"
  using mset_js_sort [of cmp xs] by (metis size_mset)

lemma js_sort_unique: "entityNamesUnique (js_sort cmp es) = entityNamesUnique es"
proof -
  have "mset (map (\<lambda>e. entityKey (name e)) (js_sort cmp es)) =
        mset (map (\<lambda>e. entityKey (name e)) es)"
    by (simp add: mset_js_sort)
  then show ?thesis
    unfolding entityNamesUnique_def by (rule mset_eq_imp_distinct_iff)
qed

lemma take_unique: "entityNamesUnique es \<Longrightarrow> entityNamesUnique (take n es)"
  unfolding entityNamesUnique_def by (simp add: take_map [symmetric])

lemma evict_withinLimits: "withinLimits (evict m)"
  by (simp add: evict_def withinLimits_def Let_def maxEntities_def maxDecisions_def
      maxOpenQuestions_def maxConstraints_def length_js_sort)

lemma evict_unique:
  "entityNamesUnique (entities m) \<Longrightarrow> entityNamesUnique (entities (evict m))"
  by (simp add: evict_def Let_def take_unique js_sort_unique)

lemma mergeMemory_unique:
  "entityNamesUnique (entities m) \<Longrightarrow> entityNamesUnique (entities (mergeMemory now m s))"
  unfolding mergeMemory_def
  by (rule evict_unique) (simp add: foldl_mergeEntity_unique split: option.splits)

lemma reachable_invariant:
  "reachable m \<Longrightarrow> withinLimits m \<and> entityNamesUnique (entities m)"
proof (induction rule: reachable.induct)
  case (reachable_empty now conversationId)
  show ?case by (simp add: createEmptyMemory_def withinLimits_def entityNamesUnique_def)
next
  case (reachable_merge m now s)
  then show ?case
    by (simp add: mergeMemory_unique) (simp add: mergeMemory_def evict_withinLimits)
qed

text \<open>
  Claim C1. Every memory reachable from the empty memory by \<open>mergeMemory\<close> calls, whatever
  the summaries and clock readings, has at most 30 entities, 20 decisions, 10 open
  questions and 15 constraints, and no two of its entities have the same name after
  lowercasing and trimming.
\<close>

theorem C1_reachable_bounded_unique:
  "reachable m \<Longrightarrow>
     length (entities m) \<le> 30 \<and> length (decisions m) \<le> 20 \<and>
     length (open_questions m) \<le> 10 \<and> length (constraints m) \<le> 15 \<and>
     (\<forall>i j. i < j \<and> j < length (entities m) \<longrightarrow>
        trim (toLowerCase (name (entities m ! i))) \<noteq> trim (toLowerCase (name (entities m ! j))))"
proof -
  assume r: "reachable m"
  from reachable_invariant [OF r]
  have w: "withinLimits m" and d: "distinct (map (\<lambda>e. entityKey (name e)) (entities m))"
    by (simp_all add: entityNamesUnique_def)
  have "trim (toLowerCase (name (entities m ! i))) \<noteq> trim (toLowerCase (name (entities m ! j)))"
    if "i < j" "j < length (entities m)" for i j
    using d that nth_eq_iff_index_eq [of "map (\<lambda>e. entityKey (name e)) (entities m)" i j]
    by (simp add: entityKey_def)
  then show ?thesis using w by (simp add: withinLimits_def)
qed

theorem C1_reachable_bounded_unique_witness:
  "reachable (mergeMemory ''t1'' (createEmptyMemory ''t0'' ''conv_1'') citiesSummary) \<and>
   length (entities (mergeMemory ''t1'' (createEmptyMemory ''t0'' ''conv_1'') citiesSummary)) = 2 \<and>
   length (decisions (mergeMemory ''t1'' (createEmptyMemory ''t0'' ''conv_1'') citiesSummary)) \<le> 20 \<and>
   trim (toLowerCase (name (entities
      (mergeMemory ''t1'' (createEmptyMemory ''t0'' ''conv_1'') citiesSummary) ! 0))) \<noteq>
   trim (toLowerCase (name (entities
      (mergeMemory ''t1'' (createEmptyMemory ''t0'' ''conv_1'') citiesSummary) ! 1)))"
proof -
  let ?m = "mergeMemory ''t1'' (createEmptyMemory ''t0'' ''conv_1'') citiesSummary"
  have r: "reachable ?m" by (intro reachable.intros)
  have l: "length (entities ?m) = 2" by code_simp
  have "(0::nat) < 1 \<and> 1 < length (entities ?m)" using l by simp
  with C1_reachable_bounded_unique [OF r] r l show ?thesis by blast
qed

subsection \<open>Merging twice\<close>





















subsection \<open>Eviction: which entity goes, and what stays in order\<close>

text \<open>
  Claim C2. The claim, and the comment \<open>keep most-mentioned, most-recent\<close> above the sort,
  say that among entities with equal \<open>mentions\<close> the least recently updated goes first. The
  comparator orders equal \<open>mentions\<close> by \<open>last_updated\<close> ascending and the first thirty are
  kept: when a thirty-first entity is merged one day after thirty others, all mentioned
  once, the newcomer is the one evicted and the thirty older entities stay.
\<close>

theorem C2_evict_drops_most_recent:
  "map name (entities fullMemory) = thirtyNames \<and>
   map mentions (entities fullMemory) = replicate 30 1 \<and>
   map name (entities (mergeMemory ''2026-01-02T10:00:00.000Z'' fullMemory newcomerSummary)) =
     thirtyNames"
  by code_simp

lemma evict_id: "withinLimits m \<Longrightarrow> evict m = m"
  by (simp add: evict_def withinLimits_def Let_def maxEntities_def maxDecisions_def
      maxOpenQuestions_def maxConstraints_def)

lemma mset_take_subset: "mset (take n xs) \<subseteq># mset xs"
  by (metis append_take_drop_id mset_append mset_subset_eq_add_left)

text \<open>
  Claim C4, as stated, fails for the entities: with more than thirty of them the list is
  sorted before it is cut, so \<open>a\<close> and \<open>b\<close> both survive and change places.
\<close>

theorem C4_entities_reordered_counterexample:
  "take 2 (map name (entities crowdedMemory)) = [''a'', ''b''] \<and>
   take 2 (map name (entities (evict crowdedMemory))) = [''b'', ''a''] \<and>
   \<not> subseq (entities (evict crowdedMemory)) (entities crowdedMemory)"
  by code_simp

text \<open>
  Claim C4, amended. For every memory, \<open>evict\<close> is idempotent; the decisions, open questions
  and constraints that survive are the last 20, 10 and 15 items of the list before
  eviction (all of them when there are no more), a suffix of it, so they keep their
  order; the entities are left as they are when there are at most thirty of them,
  and otherwise thirty survive, entities of the list before eviction, each at most as
  often as it occurred there (the list is sorted before it is cut, so their relative
  order can change).
\<close>

theorem C4_evict_idempotent_order:
  "evict (evict m) = evict m \<and>
   suffix (decisions (evict m)) (decisions m) \<and>
   suffix (open_questions (evict m)) (open_questions m) \<and>
   suffix (constraints (evict m)) (constraints m) \<and>
   (length (entities m) \<le> 30 \<longrightarrow> entities (evict m) = entities m) \<and>
   (length (entities m) > 30 \<longrightarrow> length (entities (evict m)) = 30) \<and>
   mset (entities (evict m)) \<subseteq># mset (entities m) \<and>
   decisions (evict m) = drop (length (decisions m) - 20) (decisions m) \<and>
   open_questions (evict m) = drop (length (open_questions m) - 10) (open_questions m) \<and>
   constraints (evict m) = drop (length (constraints m) - 15) (constraints m) \<and>
   length (decisions (evict m)) = min (length (decisions m)) 20 \<and>
   length (open_questions (evict m)) = min (length (open_questions m)) 10 \<and>
   length (constraints (evict m)) = min (length (constraints m)) 15"
proof -
  have "evict (evict m) = evict m"
    by (rule evict_id) (rule evict_withinLimits)
  moreover have "suffix (decisions (evict m)) (decisions m)"
    by (simp add: evict_def Let_def suffix_drop)
  moreover have "suffix (open_questions (evict m)) (open_questions m)"
    by (simp add: evict_def Let_def suffix_drop)
  moreover have "suffix (constraints (evict m)) (constraints m)"
    by (simp add: evict_def Let_def suffix_drop)
  moreover have "length (entities m) \<le> 30 \<longrightarrow> entities (evict m) = entities m"
    by (simp add: evict_def Let_def maxEntities_def)
  moreover have "length (entities m) > 30 \<longrightarrow> length (entities (evict m)) = 30"
    by (simp add: evict_def Let_def maxEntities_def length_js_sort)
  moreover have "mset (entities (evict m)) \<subseteq># mset (entities m)"
    using mset_take_subset [of maxEntities "js_sort entityCompare (entities m)"]
    by (simp add: evict_def Let_def mset_js_sort)
  moreover have "decisions (evict m) = drop (length (decisions m) - 20) (decisions m)"
    by (simp add: evict_def Let_def maxDecisions_def)
  moreover have
    "open_questions (evict m) = drop (length (open_questions m) - 10) (open_questions m)"
    by (simp add: evict_def Let_def maxOpenQuestions_def)
  moreover have "constraints (evict m) = drop (length (constraints m) - 15) (constraints m)"
    by (simp add: evict_def Let_def maxConstraints_def)
  moreover have "length (decisions (evict m)) = min (length (decisions m)) 20"
    by (simp add: evict_def Let_def maxDecisions_def)
  moreover have "length (open_questions (evict m)) = min (length (open_questions m)) 10"
    by (simp add: evict_def Let_def maxOpenQuestions_def)
  moreover have "length (constraints (evict m)) = min (length (constraints m)) 15"
    by (simp add: evict_def Let_def maxConstraints_def)
  ultimately show ?thesis by blast
qed

theorem C4_evict_idempotent_order_witness:
  "length (entities chattyMemory) \<le> 30 \<and>
   entities (evict chattyMemory) = entities chattyMemory \<and>
   evict (evict chattyMemory) = evict chattyMemory \<and>
   length (decisions chattyMemory) = 21 \<and>
   length (decisions (evict chattyMemory)) = 20 \<and>
   suffix (decisions (evict chattyMemory)) (decisions chattyMemory)"
proof -
  have h: "length (entities chattyMemory) \<le> 30" by code_simp
  have l: "length (decisions chattyMemory) = 21" by code_simp
  have l': "length (decisions (evict chattyMemory)) = 20" by code_simp
  show ?thesis using C4_evict_idempotent_order [of chattyMemory] h l l' by blast
qed

section \<open>Properties of the response detector\<close>

subsection \<open>The polling loop, tick by tick\<close>

lemma sampleAt_next: "scopeEl (n * 500 + POLL_MS) = sampleAt scopeEl (Suc n)"
  by (simp add: sampleAt_def POLL_MS_def add.commute)

lemma tick_phase2:
  fixes scopeEl :: "nat \<Rightarrow> string" and g :: nat
  defines "L \<equiv> \<lambda>k. length (sampleAt scopeEl k)"
  defines "Q \<equiv> \<lambda>n k. n < k \<and> k \<le> 180 \<and> g + 4 \<le> k \<and> steady scopeEl k"
  assumes "phase st \<noteq> 1" "elapsed st = n * 500" "n \<le> 180" "lastLength st = L n"
    "stableCount st = c" "c < 4" "1 \<le> g" "g + c \<le> n"
    "\<forall>i \<le> c. L (n - i) = L n"
    "g + c = n \<or> L (n - c - 1) \<noteq> L n"
  shows "tick msg ex scopeEl snapshot st =
    (if \<exists>k. Q n k then Resolved (ex snapshot (sampleAt scopeEl (LEAST k. Q n k)))
     else Rejected msg)"
  using assms(3-)
proof (induction "180 - n" arbitrary: n st c)
  case 0
  then have n: "n = 180" by simp
  have "\<not> (\<exists>k. Q n k)" by (simp add: Q_def n)
  moreover have "tick msg ex scopeEl snapshot st = Rejected msg"
    using "0.prems" n by (subst tick.simps) (simp add: TIMEOUT_MS_def)
  ultimately show ?case by simp
next
  case (Suc d)
  then have n: "n < 180" by simp
  have el: "\<not> elapsed st \<ge> TIMEOUT_MS" using Suc.prems n by (simp add: TIMEOUT_MS_def)
  have cur: "scopeEl (elapsed st + POLL_MS) = sampleAt scopeEl (Suc n)"
    using Suc.prems by (simp add: sampleAt_next)
  have nc: "c + 1 \<le> n" using Suc.prems by simp
  show ?case
  proof (cases "L (Suc n) = L n")
    case True
    show ?thesis
    proof (cases "c + 1 \<ge> 4")
      case four: True
      have t: "tick msg ex scopeEl snapshot st = Resolved (ex snapshot (sampleAt scopeEl (Suc n)))"
        using Suc.prems el True four
        by (subst tick.simps) (simp add: sampleAt_next Let_def L_def STABLE_NEEDED_def)
      have st: "steady scopeEl (Suc n)"
        unfolding steady_def
      proof
        fix i assume i: "i \<in> {1..4::nat}"
        then have "i - 1 \<le> c" using four by auto
        then have a: "L (n - (i - 1)) = L n" using Suc.prems by blast
        have e: "Suc n - i = n - (i - 1)" using i by simp
        have "L (Suc n - i) = L (n - (i - 1))" by (simp only: e)
        also have "\<dots> = L n" by (rule a)
        also have "\<dots> = L (Suc n)" by (simp only: True)
        finally show "length (sampleAt scopeEl (Suc n - i)) = length (sampleAt scopeEl (Suc n))"
          unfolding L_def .
      qed
      have q: "Q n (Suc n)" using st Suc.prems n four by (simp add: Q_def)
      have "(LEAST k. Q n k) = Suc n"
        by (rule Least_equality) (use q in \<open>auto simp: Q_def\<close>)
      then show ?thesis using t q by auto
    next
      case less: False
      let ?st = "st\<lparr>stableCount := stableCount st + 1, elapsed := elapsed st + POLL_MS\<rparr>"
      have t: "tick msg ex scopeEl snapshot st = tick msg ex scopeEl snapshot ?st"
        using Suc.prems el True less
        by (subst tick.simps) (simp add: sampleAt_next Let_def L_def STABLE_NEEDED_def)
      have run: "\<forall>i \<le> Suc c. L (Suc n - i) = L (Suc n)"
      proof (intro allI impI)
        fix i assume i: "i \<le> Suc c"
        show "L (Suc n - i) = L (Suc n)"
        proof (cases i)
          case 0 then show ?thesis by simp
        next
          case (Suc j)
          then have "j \<le> c" using i by simp
          then have "L (n - j) = L n" using Suc.prems by blast
          then show ?thesis using Suc True by simp
        qed
      qed
      have edge: "g + Suc c = Suc n \<or> L (Suc n - Suc c - 1) \<noteq> L (Suc n)"
        using Suc.prems True by auto
      have ih: "tick msg ex scopeEl snapshot ?st =
        (if \<exists>k. Q (Suc n) k then Resolved (ex snapshot (sampleAt scopeEl (LEAST k. Q (Suc n) k)))
         else Rejected msg)"
      proof (rule Suc.hyps(1) [of "Suc n" ?st "Suc c"])
        show "d = 180 - Suc n" using Suc.hyps(2) by simp
        show "phase ?st \<noteq> 1" using Suc.prems by simp
        show "elapsed ?st = Suc n * 500" using Suc.prems by (simp add: POLL_MS_def)
        show "Suc n \<le> 180" using n by simp
        show "lastLength ?st = L (Suc n)" using Suc.prems True by simp
        show "stableCount ?st = Suc c" using Suc.prems by simp
        show "Suc c < 4" using less by simp
        show "1 \<le> g" using Suc.prems by simp
        show "g + Suc c \<le> Suc n" using Suc.prems by simp
        show "\<forall>i \<le> Suc c. L (Suc n - i) = L (Suc n)" by (rule run)
        show "g + Suc c = Suc n \<or> L (Suc n - Suc c - 1) \<noteq> L (Suc n)" by (rule edge)
      qed
      have nq: "\<not> Q n (Suc n)"
      proof
        assume q: "Q n (Suc n)"
        then have g4: "g + 4 \<le> Suc n" and s: "steady scopeEl (Suc n)" by (simp_all add: Q_def)
        from Suc.prems have "g + c = n \<or> L (n - c - 1) \<noteq> L n" by blast
        then show False
        proof
          assume "g + c = n" then show False using g4 less by simp
        next
          assume ne: "L (n - c - 1) \<noteq> L n"
          have "c + 2 \<in> {1..4::nat}" using less by simp
          then have "length (sampleAt scopeEl (Suc n - (c + 2))) = length (sampleAt scopeEl (Suc n))"
            using s unfolding steady_def by blast
          then have a: "L (Suc n - (c + 2)) = L (Suc n)" unfolding L_def .
          have e: "Suc n - (c + 2) = n - c - 1" by simp
          have "L (n - c - 1) = L (Suc n - (c + 2))" by (simp only: e)
          also have "\<dots> = L (Suc n)" by (rule a)
          also have "\<dots> = L n" by (rule True)
          finally show False using ne by blast
        qed
      qed
      have "Q n k = Q (Suc n) k" for k
      proof (cases "k = Suc n")
        case True then show ?thesis using nq by (simp add: Q_def)
      next
        case False then show ?thesis by (auto simp: Q_def)
      qed
      then have "Q n = Q (Suc n)" by (intro ext)
      then show ?thesis using t ih by simp
    qed
  next
    case False
    let ?st = "st\<lparr>stableCount := 0, lastLength := length (sampleAt scopeEl (Suc n)),
                   elapsed := elapsed st + POLL_MS\<rparr>"
    have t: "tick msg ex scopeEl snapshot st = tick msg ex scopeEl snapshot ?st"
      using Suc.prems el False
      by (subst tick.simps) (simp add: sampleAt_next Let_def L_def)
    have ih: "tick msg ex scopeEl snapshot ?st =
        (if \<exists>k. Q (Suc n) k then Resolved (ex snapshot (sampleAt scopeEl (LEAST k. Q (Suc n) k)))
         else Rejected msg)"
    proof (rule Suc.hyps(1) [of "Suc n" ?st 0])
      show "d = 180 - Suc n" using Suc.hyps(2) by simp
      show "phase ?st \<noteq> 1" using Suc.prems by simp
      show "elapsed ?st = Suc n * 500" using Suc.prems by (simp add: POLL_MS_def)
      show "Suc n \<le> 180" using n by simp
      show "lastLength ?st = L (Suc n)" by (simp add: L_def)
      show "stableCount ?st = 0" by simp
      show "(0::nat) < 4" by simp
      show "1 \<le> g" using Suc.prems by simp
      show "g + 0 \<le> Suc n" using Suc.prems by simp
      show "\<forall>i \<le> 0. L (Suc n - i) = L (Suc n)" by simp
      show "g + 0 = Suc n \<or> L (Suc n - 0 - 1) \<noteq> L (Suc n)" using False by simp
    qed
    have nq: "\<not> Q n (Suc n)"
    proof
      assume "Q n (Suc n)"
      then have "steady scopeEl (Suc n)" by (simp add: Q_def)
      moreover have "(1::nat) \<in> {1..4}" by simp
      ultimately have "length (sampleAt scopeEl (Suc n - 1)) = length (sampleAt scopeEl (Suc n))"
        unfolding steady_def by blast
      then show False using False by (simp add: L_def)
    qed
    have "Q n k = Q (Suc n) k" for k
    proof (cases "k = Suc n")
      case True then show ?thesis using nq by (simp add: Q_def)
    next
      case False then show ?thesis by (auto simp: Q_def)
    qed
    then have "Q n = Q (Suc n)" by (intro ext)
    then show ?thesis using t ih by simp
  qed
qed


lemma tick_phase1:
  fixes scopeEl :: "nat \<Rightarrow> string"
  assumes "phase st = 1" "stableCount st = 0" "elapsed st = n * 500" "n \<le> 180"
    "\<forall>k. 1 \<le> k \<and> k \<le> n \<longrightarrow> \<not> grown scopeEl snapshot k"
  shows "tick msg ex scopeEl snapshot st =
    (if \<exists>k. quiescentAt scopeEl snapshot k
     then Resolved (ex snapshot (sampleAt scopeEl (LEAST k. quiescentAt scopeEl snapshot k)))
     else Rejected msg)"
  using assms
proof (induction "180 - n" arbitrary: n st)
  case 0
  then have n: "n = 180" by simp
  have "\<not> quiescentAt scopeEl snapshot k" for k
  proof
    assume "quiescentAt scopeEl snapshot k"
    then obtain g where "k \<le> 180" "g \<in> {1..k - 4}" "grown scopeEl snapshot g"
      unfolding quiescentAt_def by blast
    moreover have "1 \<le> g \<and> g \<le> n" using calculation n by auto
    ultimately show False using "0.prems" by blast
  qed
  moreover have "tick msg ex scopeEl snapshot st = Rejected msg"
    using "0.prems" n by (subst tick.simps) (simp add: TIMEOUT_MS_def)
  ultimately show ?case by simp
next
  case (Suc d)
  then have n: "n < 180" by simp
  have el: "\<not> elapsed st \<ge> TIMEOUT_MS" using Suc.prems n by (simp add: TIMEOUT_MS_def)
  show ?case
  proof (cases "grown scopeEl snapshot (Suc n)")
    case True
    let ?st = "st\<lparr>phase := 2, lastLength := length (sampleAt scopeEl (Suc n)),
                   elapsed := elapsed st + POLL_MS\<rparr>"
    let ?Q = "\<lambda>k. Suc n < k \<and> k \<le> 180 \<and> Suc n + 4 \<le> k \<and> steady scopeEl k"
    have t: "tick msg ex scopeEl snapshot st = tick msg ex scopeEl snapshot ?st"
      using Suc.prems el True
      by (subst tick.simps) (simp add: sampleAt_next Let_def grown_def MIN_NEW_CHARS_def)
    have p2: "tick msg ex scopeEl snapshot ?st =
      (if \<exists>k. ?Q k then Resolved (ex snapshot (sampleAt scopeEl (LEAST k. ?Q k)))
       else Rejected msg)"
    proof (rule tick_phase2 [where c = 0 and g = "Suc n" and n = "Suc n"])
      show "phase ?st \<noteq> 1" by simp
      show "elapsed ?st = Suc n * 500" using Suc.prems by (simp add: POLL_MS_def)
      show "Suc n \<le> 180" using n by simp
      show "lastLength ?st = length (sampleAt scopeEl (Suc n))" by simp
      show "stableCount ?st = 0" using Suc.prems by simp
      show "(0::nat) < 4" by simp
      show "1 \<le> Suc n" by simp
      show "Suc n + 0 \<le> Suc n" by simp
      show "\<forall>i\<le>0. length (sampleAt scopeEl (Suc n - i)) = length (sampleAt scopeEl (Suc n))"
        by simp
      show "Suc n + 0 = Suc n \<or>
        length (sampleAt scopeEl (Suc n - 0 - 1)) \<noteq> length (sampleAt scopeEl (Suc n))"
        by simp
    qed
    have "quiescentAt scopeEl snapshot k = ?Q k" for k
    proof
      assume q: "quiescentAt scopeEl snapshot k"
      then obtain g where g: "k \<le> 180" "steady scopeEl k" "g \<in> {1..k - 4}" "grown scopeEl snapshot g"
        unfolding quiescentAt_def by blast
      have "\<not> (1 \<le> g \<and> g \<le> n)" using Suc.prems g(4) by blast
      then have "Suc n \<le> g" using g(3) by simp
      then show "?Q k" using g by auto
    next
      assume q: "?Q k"
      then have "Suc n \<in> {1..k - 4}" by auto
      then show "quiescentAt scopeEl snapshot k"
        unfolding quiescentAt_def using q True by blast
    qed
    then have eq: "quiescentAt scopeEl snapshot = ?Q" by (intro ext)
    show ?thesis by (simp only: t p2 eq)
  next
    case False
    let ?st = "st\<lparr>elapsed := elapsed st + POLL_MS\<rparr>"
    have t: "tick msg ex scopeEl snapshot st = tick msg ex scopeEl snapshot ?st"
      using Suc.prems el False
      by (subst tick.simps) (simp add: sampleAt_next Let_def grown_def MIN_NEW_CHARS_def)
    have "tick msg ex scopeEl snapshot ?st =
      (if \<exists>k. quiescentAt scopeEl snapshot k
       then Resolved (ex snapshot (sampleAt scopeEl (LEAST k. quiescentAt scopeEl snapshot k)))
       else Rejected msg)"
    proof (rule Suc.hyps(1) [of "Suc n" ?st])
      show "d = 180 - Suc n" using Suc.hyps(2) by simp
      show "phase ?st = 1" using Suc.prems by simp
      show "stableCount ?st = 0" using Suc.prems by simp
      show "elapsed ?st = Suc n * 500" using Suc.prems by (simp add: POLL_MS_def)
      show "Suc n \<le> 180" using n by simp
      show "\<forall>k. 1 \<le> k \<and> k \<le> Suc n \<longrightarrow> \<not> grown scopeEl snapshot k"
        using Suc.prems False by (metis le_SucE)
    qed
    then show ?thesis using t by simp
  qed
qed

lemma tick_initial:
  "tick msg ex scopeEl snapshot \<lparr>phase = 1, lastLength = l, stableCount = 0, elapsed = 0\<rparr> =
    (if \<exists>k. quiescentAt scopeEl snapshot k
     then Resolved (ex snapshot (sampleAt scopeEl (LEAST k. quiescentAt scopeEl snapshot k)))
     else Rejected msg)"
  by (rule tick_phase1 [where n = 0]) simp_all

text \<open>
  Claim C6, amended. The loop leaves phase 1 at the first sample that is more than 50
  characters longer than the baseline (with a baseline of 100 characters a sample of 140
  does not end phase 1 and one of 170 does). It then resolves at the first tick whose
  sample and the four samples before it, none older than the sample that ended phase 1,
  all have the same length: phase 2 compares the lengths of the samples, not their
  contents, and counts four repetitions of a length. The text extracted is that of this
  tick. If there is no such tick among the 180 ticks that read a sample, the promise is
  rejected with the timeout message. Both scripts behave so.
\<close>

theorem C6_quiescence_by_length:
  "(grown scopeEl snapshot g \<longleftrightarrow> length (sampleAt scopeEl g) > length snapshot + 50) \<and>
   waitForTargetResponse scopeEl snapshot =
     (if \<exists>k. quiescentAt scopeEl snapshot k
      then Resolved (extractTargetResponse snapshot
                       (sampleAt scopeEl (LEAST k. quiescentAt scopeEl snapshot k)))
      else Rejected ''Timed out waiting for ChatGPT's response (target mode).'') \<and>
   waitForDeepSeekResponse scopeEl snapshot =
     (if \<exists>k. quiescentAt scopeEl snapshot k
      then Resolved (extractResponse snapshot
                       (sampleAt scopeEl (LEAST k. quiescentAt scopeEl snapshot k)))
      else Rejected ''Timed out waiting for DeepSeek's response.'')"
  unfolding waitForTargetResponse_def waitForDeepSeekResponse_def
  by (simp only: tick_initial grown_def simp_thms)

lemma grown_settling: "grown settlingScope baseline100 g \<longleftrightarrow> 2 \<le> g"
  by (auto simp: grown_def sampleAt_def settlingScope_def baseline100_def)

theorem C6_quiescence_by_length_witness:
  "length baseline100 = 100 \<and>
   length (sampleAt settlingScope 1) = 140 \<and> \<not> grown settlingScope baseline100 1 \<and>
   length (sampleAt settlingScope 2) = 170 \<and> grown settlingScope baseline100 2 \<and>
   quiescentAt settlingScope baseline100 6 \<and>
   \<not> quiescentAt settlingScope baseline100 5 \<and>
   \<not> quiescentAt settlingScope baseline100 4 \<and>
   waitForTargetResponse settlingScope baseline100 =
     Resolved (extractTargetResponse baseline100 (sampleAt settlingScope 6)) \<and>
   waitForTargetResponse idleScope baseline100 =
     Rejected ''Timed out waiting for ChatGPT's response (target mode).''"
proof -
  have q6: "quiescentAt settlingScope baseline100 6"
    unfolding quiescentAt_def
  proof (intro conjI)
    show "(6::nat) \<le> 180" by simp
    show "steady settlingScope 6"
      by (auto simp: steady_def sampleAt_def settlingScope_def)
    have "(2::nat) \<in> {1..6 - 4}" by simp
    then show "\<exists>g\<in>{1..6 - 4}. grown settlingScope baseline100 g"
      using grown_settling [of 2] by blast
  qed
  have lo: "6 \<le> k" if "quiescentAt settlingScope baseline100 k" for k
  proof -
    from that obtain g where "g \<in> {1..k - 4}" "grown settlingScope baseline100 g"
      unfolding quiescentAt_def by blast
    then show ?thesis by (auto simp: grown_settling)
  qed
  have least: "(LEAST k. quiescentAt settlingScope baseline100 k) = 6"
    by (rule Least_equality) (use q6 lo in auto)
  have idle: "\<not> (\<exists>k. quiescentAt idleScope baseline100 k)"
    by (simp add: quiescentAt_def grown_def sampleAt_def idleScope_def)
  have ex: "\<exists>k. quiescentAt settlingScope baseline100 k" using q6 by blast
  have w1: "waitForTargetResponse settlingScope baseline100 =
     Resolved (extractTargetResponse baseline100 (sampleAt settlingScope 6))"
    using C6_quiescence_by_length [of settlingScope baseline100 2] ex least by simp
  have w2: "waitForTargetResponse idleScope baseline100 =
     Rejected ''Timed out waiting for ChatGPT's response (target mode).''"
    using C6_quiescence_by_length [of idleScope baseline100 2] idle by simp
  have g1: "\<not> grown settlingScope baseline100 1" and g2: "grown settlingScope baseline100 2"
    by (simp_all add: grown_settling)
  have l: "length baseline100 = 100" "length (sampleAt settlingScope 1) = 140"
    "length (sampleAt settlingScope 2) = 170"
    by (simp_all add: baseline100_def sampleAt_def settlingScope_def)
  have n5: "\<not> quiescentAt settlingScope baseline100 5"
    using lo [of 5] by auto
  have n4: "\<not> quiescentAt settlingScope baseline100 4"
    using lo [of 4] by auto
  show ?thesis using q6 n5 n4 w1 w2 g1 g2 l by blast
qed

text \<open>
  Claim C6, as stated, fails: on a page whose 70 new characters change at every tick while
  their number stays the same, no two consecutive samples are identical, and the loop
  resolves at the sixth tick all the same.
\<close>

theorem C6_same_length_counterexample:
  "waitForTargetResponse flickeringScope baseline100 =
     Resolved (extractTargetResponse baseline100 (flickeringScope 3000)) \<and>
   flickeringScope 500 \<noteq> flickeringScope 1000 \<and>
   flickeringScope 1000 \<noteq> flickeringScope 1500 \<and>
   flickeringScope 1500 \<noteq> flickeringScope 2000 \<and>
   flickeringScope 2000 \<noteq> flickeringScope 2500 \<and>
   flickeringScope 2500 \<noteq> flickeringScope 3000"
  by (simp add: waitForTargetResponse_def tick.simps flickeringScope_def baseline100_def
       TIMEOUT_MS_def POLL_MS_def MIN_NEW_CHARS_def STABLE_NEEDED_def Let_def)

subsection \<open>Extraction\<close>

text \<open>
  Claim C9. The claim, and the repository's description of the function (\<open>filters out
  lines shorter than 10 characters\<close>), keep a line of exactly 10 characters. The filter
  is \<open>l.length > 10\<close>: a new text that is one line of exactly 10 characters is extracted as
  the empty string, and a line of 11 characters is the shortest that is kept.
\<close>

theorem C9_ten_character_line_dropped:
  "extractTargetResponse ''page'' ''page0123456789'' = '''' \<and>
   extractResponse ''page'' ''page0123456789'' = '''' \<and>
   extractTargetResponse ''page'' ''page0123456789A'' = ''0123456789A'' \<and>
   extractResponse ''page'' ''page0123456789A'' = ''0123456789A''"
  by (simp add: extractTargetResponse_def extractResponse_def trim_def isSpace_def newline_def)

section \<open>Properties of the reply decoder\<close>

subsection \<open>Searching a text\<close>

lemma indexOfFrom_none: "indexOfFrom i hay needle = - 1 \<longleftrightarrow> \<not> sublist needle hay"
proof (induction hay arbitrary: i)
  case Nil
  show ?case by simp
next
  case (Cons c cs)
  show ?case using Cons.IH [of "Suc i"] by (simp add: sublist_Cons_right)
qed

lemma indexOfFrom_found:
  "indexOfFrom i hay needle \<noteq> - 1 \<Longrightarrow>
     int i \<le> indexOfFrom i hay needle \<and>
     nat (indexOfFrom i hay needle) - i \<le> length hay \<and>
     prefix needle (drop (nat (indexOfFrom i hay needle) - i) hay)"
proof (induction hay arbitrary: i)
  case Nil
  then show ?case by (simp split: if_splits)
next
  case (Cons c cs)
  show ?case
  proof (cases "prefix needle (c # cs)")
    case True
    then show ?thesis by simp
  next
    case False
    then have e: "indexOfFrom i (c # cs) needle = indexOfFrom (Suc i) cs needle" by simp
    with Cons.prems have "indexOfFrom (Suc i) cs needle \<noteq> - 1" by simp
    from Cons.IH [OF this]
    have a: "int (Suc i) \<le> indexOfFrom (Suc i) cs needle"
      and b: "nat (indexOfFrom (Suc i) cs needle) - Suc i \<le> length cs"
      and c: "prefix needle (drop (nat (indexOfFrom (Suc i) cs needle) - Suc i) cs)"
      by simp_all
    from a have d: "nat (indexOfFrom (Suc i) cs needle) - i = Suc (nat (indexOfFrom (Suc i) cs needle) - Suc i)"
      by linarith
    show ?thesis unfolding e using a b c d by simp
  qed
qed

lemma indexOf_none: "indexOf hay needle = - 1 \<longleftrightarrow> \<not> sublist needle hay"
  by (simp add: indexOf_def indexOfFrom_none)

lemma indexOf_found:
  "indexOf hay needle \<noteq> - 1 \<Longrightarrow>
     0 \<le> indexOf hay needle \<and> prefix needle (drop (nat (indexOf hay needle)) hay)"
  using indexOfFrom_found [of 0 hay needle] by (simp add: indexOf_def)

lemma trim_Nil: "trim [] = []"
  by (simp add: trim_def)

lemma no_markers:
  assumes "\<not> sublist MEMORY_START_MARKER fullText \<or> \<not> sublist MEMORY_END_MARKER fullText \<or>
     indexOf fullText MEMORY_END_MARKER \<le> indexOf fullText MEMORY_START_MARKER"
  shows "parseTargetResponse JSON_parse fullText = \<lparr>reply = trim fullText, memoryUpdate = None\<rparr>"
proof (cases "fullText = []")
  case True
  then show ?thesis by (simp add: parseTargetResponse_def trim_Nil)
next
  case False
  have "indexOf fullText MEMORY_START_MARKER = - 1 \<or> indexOf fullText MEMORY_END_MARKER = - 1 \<or>
     indexOf fullText MEMORY_END_MARKER \<le> indexOf fullText MEMORY_START_MARKER"
    using assms by (simp add: indexOf_none)
  then show ?thesis using False by (simp add: parseTargetResponse_def Let_def)
qed

lemma with_markers:
  assumes "sublist MEMORY_START_MARKER fullText" "sublist MEMORY_END_MARKER fullText"
    "indexOf fullText MEMORY_START_MARKER < indexOf fullText MEMORY_END_MARKER"
  shows "reply (parseTargetResponse JSON_parse fullText) =
           trim (take (nat (indexOf fullText MEMORY_START_MARKER)) fullText) \<and>
         prefix MEMORY_START_MARKER (drop (nat (indexOf fullText MEMORY_START_MARKER)) fullText)"
proof -
  have s: "indexOf fullText MEMORY_START_MARKER \<noteq> - 1" and e: "indexOf fullText MEMORY_END_MARKER \<noteq> - 1"
    using assms by (simp_all add: indexOf_none)
  have ne: "fullText \<noteq> []" using assms(1) by (auto simp: MEMORY_START_MARKER_def)
  have "reply (parseTargetResponse JSON_parse fullText) =
           trim (take (nat (indexOf fullText MEMORY_START_MARKER)) fullText)"
    using s e ne assms(3) by (simp add: parseTargetResponse_def Let_def slice_def)
  then show ?thesis using indexOf_found [OF s] by simp
qed

lemma take_scenario:
  "parseTargetResponse JSON_parse takeReply =
     \<lparr>reply = ''Sure, here's my take...'',
      memoryUpdate = Some (FromBlock
        \<lparr>summary.topic = Some ''X'', summary.user_goal = Some '''', important_facts = Some [],
         decisions_made = Some [], summary.current_task = Some '''', summary.entities = Some [],
         summary.open_questions = Some [], summary.constraints = Some []\<rparr>)\<rparr>"
  by (simp add: parseTargetResponse_def takeReply_def newline_def MEMORY_START_MARKER_def MEMORY_END_MARKER_def
     indexOf_def slice_def trim_def isSpace_def parseMemoryBlock_def readFields_def readLine_def stripBullet_def
     toLowerCase_def lowerChar_def js_or_def splitSemicolons_def Let_def List.map_filter_simps)

text \<open>
  Claim C5. A text in which the start marker or the end marker does not occur, or whose
  first end marker does not come after its first start marker, is returned whole,
  trimmed, as the reply, with no memory update. With well-formed markers the reply is the
  text before the first start marker, trimmed. The reply of the scenario decodes to
  \<open>Sure, here's my take...\<close> with a memory update whose topic is \<open>X\<close>, whatever
  \<open>JSON.parse\<close> does.
\<close>

theorem C5_parseTargetResponse_markers:
  "(\<forall>JSON_parse fullText.
      \<not> sublist MEMORY_START_MARKER fullText \<or> \<not> sublist MEMORY_END_MARKER fullText \<or>
      indexOf fullText MEMORY_END_MARKER \<le> indexOf fullText MEMORY_START_MARKER \<longrightarrow>
      parseTargetResponse JSON_parse fullText = \<lparr>reply = trim fullText, memoryUpdate = None\<rparr>) \<and>
   (\<forall>JSON_parse fullText.
      sublist MEMORY_START_MARKER fullText \<and> sublist MEMORY_END_MARKER fullText \<and>
      indexOf fullText MEMORY_START_MARKER < indexOf fullText MEMORY_END_MARKER \<longrightarrow>
      reply (parseTargetResponse JSON_parse fullText) =
        trim (take (nat (indexOf fullText MEMORY_START_MARKER)) fullText) \<and>
      prefix MEMORY_START_MARKER (drop (nat (indexOf fullText MEMORY_START_MARKER)) fullText)) \<and>
   (\<forall>JSON_parse.
      reply (parseTargetResponse JSON_parse takeReply) = ''Sure, here's my take...'' \<and>
      (\<exists>u. memoryUpdate (parseTargetResponse JSON_parse takeReply) = Some (FromBlock u) \<and>
           summary.topic u = Some ''X''))"
proof (intro conjI allI impI)
  fix JSON_parse fullText
  assume "\<not> sublist MEMORY_START_MARKER fullText \<or> \<not> sublist MEMORY_END_MARKER fullText \<or>
      indexOf fullText MEMORY_END_MARKER \<le> indexOf fullText MEMORY_START_MARKER"
  then show "parseTargetResponse JSON_parse fullText = \<lparr>reply = trim fullText, memoryUpdate = None\<rparr>"
    by (rule no_markers)
next
  fix JSON_parse fullText
  assume a: "sublist MEMORY_START_MARKER fullText \<and> sublist MEMORY_END_MARKER fullText \<and>
      indexOf fullText MEMORY_START_MARKER < indexOf fullText MEMORY_END_MARKER"
  show "reply (parseTargetResponse JSON_parse fullText) =
        trim (take (nat (indexOf fullText MEMORY_START_MARKER)) fullText)"
    using a with_markers by blast
  show "prefix MEMORY_START_MARKER (drop (nat (indexOf fullText MEMORY_START_MARKER)) fullText)"
    using a with_markers by blast
next
  fix JSON_parse
  show "reply (parseTargetResponse JSON_parse takeReply) = ''Sure, here's my take...''"
    by (simp add: take_scenario)
  show "\<exists>u. memoryUpdate (parseTargetResponse JSON_parse takeReply) = Some (FromBlock u) \<and>
           summary.topic u = Some ''X''"
    by (simp add: take_scenario)
qed


theorem C5_parseTargetResponse_markers_witness:
  "\<not> sublist MEMORY_START_MARKER ''  No notes this time. '' \<and>
   parseTargetResponse parseOpenOnly ''  No notes this time. '' =
     \<lparr>reply = ''No notes this time.'', memoryUpdate = None\<rparr> \<and>
   indexOf reversedReply MEMORY_END_MARKER \<le> indexOf reversedReply MEMORY_START_MARKER \<and>
   parseTargetResponse parseOpenOnly reversedReply =
     \<lparr>reply = trim reversedReply, memoryUpdate = None\<rparr> \<and>
   sublist MEMORY_START_MARKER takeReply \<and> sublist MEMORY_END_MARKER takeReply \<and>
   indexOf takeReply MEMORY_START_MARKER = 24 \<and> indexOf takeReply MEMORY_END_MARKER = 46 \<and>
   reply (parseTargetResponse parseOpenOnly takeReply) = trim (take 24 takeReply)"
proof -
  have i1: "indexOf ''  No notes this time. '' MEMORY_START_MARKER = - 1"
    by (simp add: indexOf_def MEMORY_START_MARKER_def)
  have h1: "\<not> sublist MEMORY_START_MARKER ''  No notes this time. ''"
    using i1 by (simp add: indexOf_none)
  have t1: "trim ''  No notes this time. '' = ''No notes this time.''"
    by (simp add: trim_def isSpace_def)
  have i2: "indexOf reversedReply MEMORY_END_MARKER = 6" "indexOf reversedReply MEMORY_START_MARKER = 32"
    by (simp_all add: indexOf_def reversedReply_def newline_def MEMORY_START_MARKER_def MEMORY_END_MARKER_def)
  have h2: "indexOf reversedReply MEMORY_END_MARKER \<le> indexOf reversedReply MEMORY_START_MARKER"
    using i2 by simp
  have i3: "indexOf takeReply MEMORY_START_MARKER = 24" "indexOf takeReply MEMORY_END_MARKER = 46"
    by (simp_all add: indexOf_def takeReply_def newline_def MEMORY_START_MARKER_def MEMORY_END_MARKER_def)
  have h3: "sublist MEMORY_START_MARKER takeReply \<and> sublist MEMORY_END_MARKER takeReply \<and>
      indexOf takeReply MEMORY_START_MARKER < indexOf takeReply MEMORY_END_MARKER"
    using i3 indexOf_none [of takeReply MEMORY_START_MARKER] indexOf_none [of takeReply MEMORY_END_MARKER]
    by simp
  note c = C5_parseTargetResponse_markers
  have r1: "parseTargetResponse parseOpenOnly ''  No notes this time. '' =
     \<lparr>reply = trim ''  No notes this time. '', memoryUpdate = None\<rparr>"
    using c [THEN conjunct1, rule_format, of "''  No notes this time. ''" parseOpenOnly] h1 by blast
  have r2: "parseTargetResponse parseOpenOnly reversedReply =
     \<lparr>reply = trim reversedReply, memoryUpdate = None\<rparr>"
    using c [THEN conjunct1, rule_format, of reversedReply parseOpenOnly] h2 by blast
  have r3: "reply (parseTargetResponse parseOpenOnly takeReply) =
        trim (take (nat (indexOf takeReply MEMORY_START_MARKER)) takeReply)"
    using c [THEN conjunct2, THEN conjunct1, rule_format, OF h3, of parseOpenOnly] by blast
  show ?thesis using h1 r1 t1 h2 r2 h3 i3 r3 by simp
qed

subsection \<open>What counts as data\<close>

lemma splitSemicolons_Nil: "splitSemicolons [] = []"
  by (simp add: splitSemicolons_def)

lemma block_without_core_fields:
  assumes "\<forall>k \<in> set [''topic'', ''goal'', ''user goal'', ''user_goal'', ''task'', ''current task'',
                     ''current_task'', ''facts'', ''important facts'', ''important_facts'',
                     ''decisions'', ''decisions made'', ''decisions_made'', ''entities''].
             readFields blockStr k = None"
  shows "parseMemoryBlock blockStr = None"
  using assms
  by (simp add: parseMemoryBlock_def js_or_def splitSemicolons_Nil List.map_filter_simps)

lemma json_without_core_fields:
  assumes "JSON_parse (trim (stripClosingFence (stripOpeningFence True blockStr))) = Some (JObj kvs)"
    and "\<forall>k \<in> set [''topic'', ''user_goal'', ''current_task'', ''entities'', ''decisions_made''].
           map_of kvs k = None"
  shows "\<not> hasData (parseSummary JSON_parse blockStr)"
  using assms
  by (simp add: parseSummary_def hasData_def stringField_def stringArrayField_def truthy_def)

lemma hasData_ignores:
  "hasData (s\<lparr>summary.open_questions := oq, summary.constraints := cs\<rparr>) = hasData s"
  by (simp add: hasData_def)


lemma wellFormed_nonempty: "wellFormed fullText \<Longrightarrow> fullText \<noteq> []"
  by (auto simp: wellFormed_def indexOf_def MEMORY_START_MARKER_def)

text \<open>
  Claim C10. A labeled block in which none of the topic, goal, task, facts, decisions and
  entities labels has a value gives no memory update, whatever its \<open>Open\<close> and
  \<open>Constraints\<close> lines hold; a JSON block that parses to an object without \<open>topic\<close>,
  \<open>user_goal\<close>, \<open>current_task\<close>, \<open>entities\<close> and \<open>decisions_made\<close> gives no memory update
  either; and \<open>hasData\<close> does not depend on \<open>open_questions\<close> and \<open>constraints\<close>.
\<close>

theorem C10_open_and_constraints_ignored:
  "(\<forall>JSON_parse fullText.
      wellFormed fullText \<and> take 1 (blockOf fullText) \<noteq> ''{'' \<and>
      (\<forall>k \<in> set [''topic'', ''goal'', ''user goal'', ''user_goal'', ''task'', ''current task'',
                  ''current_task'', ''facts'', ''important facts'', ''important_facts'',
                  ''decisions'', ''decisions made'', ''decisions_made'', ''entities''].
          readFields (blockOf fullText) k = None) \<longrightarrow>
      memoryUpdate (parseTargetResponse JSON_parse fullText) = None) \<and>
   (\<forall>JSON_parse fullText kvs.
      wellFormed fullText \<and> take 1 (blockOf fullText) = ''{'' \<and>
      JSON_parse (cleanedOf (blockOf fullText)) = Some (JObj kvs) \<and>
      (\<forall>k \<in> set [''topic'', ''user_goal'', ''current_task'', ''entities'', ''decisions_made''].
          map_of kvs k = None) \<longrightarrow>
      memoryUpdate (parseTargetResponse JSON_parse fullText) = None) \<and>
   (\<forall>s oq cs. hasData (s\<lparr>summary.open_questions := oq, summary.constraints := cs\<rparr>) = hasData s)"
proof (intro conjI allI impI)
  fix JSON_parse fullText
  assume a: "wellFormed fullText \<and> take 1 (blockOf fullText) \<noteq> ''{'' \<and>
      (\<forall>k \<in> set [''topic'', ''goal'', ''user goal'', ''user_goal'', ''task'', ''current task'',
                  ''current_task'', ''facts'', ''important facts'', ''important_facts'',
                  ''decisions'', ''decisions made'', ''decisions_made'', ''entities''].
          readFields (blockOf fullText) k = None)"
  then have "parseMemoryBlock (blockOf fullText) = None"
    by (intro block_without_core_fields) blast
  then show "memoryUpdate (parseTargetResponse JSON_parse fullText) = None"
    using a wellFormed_nonempty [of fullText]
    by (simp add: parseTargetResponse_def wellFormed_def blockOf_def Let_def MEMORY_START_MARKER_def)
next
  fix JSON_parse fullText kvs
  assume a: "wellFormed fullText \<and> take 1 (blockOf fullText) = ''{'' \<and>
      JSON_parse (cleanedOf (blockOf fullText)) = Some (JObj kvs) \<and>
      (\<forall>k \<in> set [''topic'', ''user_goal'', ''current_task'', ''entities'', ''decisions_made''].
          map_of kvs k = None)"
  then have "\<not> hasData (parseSummary JSON_parse (blockOf fullText))"
    by (intro json_without_core_fields [of _ _ kvs]) (simp_all add: cleanedOf_def)
  then show "memoryUpdate (parseTargetResponse JSON_parse fullText) = None"
    using a wellFormed_nonempty [of fullText]
    by (simp add: parseTargetResponse_def wellFormed_def blockOf_def Let_def MEMORY_START_MARKER_def)
next
  fix s :: "json summary" and oq cs
  show "hasData (s\<lparr>summary.open_questions := oq, summary.constraints := cs\<rparr>) = hasData s"
    by (rule hasData_ignores)
qed

theorem C10_open_and_constraints_ignored_witness:
  "wellFormed openOnlyReply \<and> blockOf openOnlyReply = openOnlyBlock \<and>
   readFields openOnlyBlock ''open'' = Some ''which hotel?; which week?'' \<and>
   readFields openOnlyBlock ''constraints'' = Some ''no backend; no API keys'' \<and>
   memoryUpdate (parseTargetResponse parseOpenOnly openOnlyReply) = None \<and>
   wellFormed openOnlyJsonReply \<and> blockOf openOnlyJsonReply = openOnlyJson \<and>
   summary.open_questions (parseSummary parseOpenOnly openOnlyJson) = Some [''which hotel?''] \<and>
   summary.constraints (parseSummary parseOpenOnly openOnlyJson) = Some [''no backend''] \<and>
   memoryUpdate (parseTargetResponse parseOpenOnly openOnlyJsonReply) = None"
proof -
  note c = C10_open_and_constraints_ignored
  have w1: "wellFormed openOnlyReply" by code_simp
  have b1: "blockOf openOnlyReply = openOnlyBlock" by code_simp
  have n1: "take 1 (blockOf openOnlyReply) \<noteq> ''{''" unfolding b1 by code_simp
  have f1: "\<forall>k \<in> set [''topic'', ''goal'', ''user goal'', ''user_goal'', ''task'', ''current task'',
                  ''current_task'', ''facts'', ''important facts'', ''important_facts'',
                  ''decisions'', ''decisions made'', ''decisions_made'', ''entities''].
          readFields (blockOf openOnlyReply) k = None"
    unfolding b1 by code_simp
  have o1: "readFields openOnlyBlock ''open'' = Some ''which hotel?; which week?''" by code_simp
  have o2: "readFields openOnlyBlock ''constraints'' = Some ''no backend; no API keys''" by code_simp
  have r1: "memoryUpdate (parseTargetResponse parseOpenOnly openOnlyReply) = None"
    using c [THEN conjunct1, rule_format, of openOnlyReply parseOpenOnly] w1 n1 f1 by blast
  have w2: "wellFormed openOnlyJsonReply" by code_simp
  have b2: "blockOf openOnlyJsonReply = openOnlyJson" by code_simp
  have n2: "take 1 (blockOf openOnlyJsonReply) = ''{''" unfolding b2 by code_simp
  have j2: "parseOpenOnly (cleanedOf (blockOf openOnlyJsonReply)) =
      Some (JObj [(''open_questions'', JArr [JStr ''which hotel?'']),
                  (''constraints'', JArr [JStr ''no backend''])])"
    unfolding b2 by code_simp
  have k2: "\<forall>k \<in> set [''topic'', ''user_goal'', ''current_task'', ''entities'', ''decisions_made''].
      map_of [(''open_questions'', JArr [JStr ''which hotel?'']),
              (''constraints'', JArr [JStr ''no backend''])] k = None"
    by simp
  have r2: "memoryUpdate (parseTargetResponse parseOpenOnly openOnlyJsonReply) = None"
    using c [THEN conjunct2, THEN conjunct1, rule_format, of openOnlyJsonReply parseOpenOnly] w2 n2 j2 k2
    by blast
  have p1: "summary.open_questions (parseSummary parseOpenOnly openOnlyJson) = Some [''which hotel?'']"
    by code_simp
  have p2: "summary.constraints (parseSummary parseOpenOnly openOnlyJson) = Some [''no backend'']"
    by code_simp
  show ?thesis using w1 b1 o1 o2 r1 w2 b2 p1 p2 r2 by blast
qed

section \<open>Properties of the formatter\<close>

lemma formatLines_filtered:
  "formatLines (m\<lparr>constraints := filter (\<lambda>c. \<not> isMetaInstruction c) (constraints m),
                  current_task := (if isMetaInstruction (current_task m) then [] else current_task m)\<rparr>) =
   formatLines m"
proof -
  have f: "filter (\<lambda>c. \<not> isMetaInstruction c) (constraints m) \<noteq> [] \<Longrightarrow> constraints m \<noteq> []"
    by auto
  show ?thesis
    using f by (cases "isMetaInstruction (current_task m)") (auto simp: formatLines_def Let_def)
qed

lemma no_task_lines:
  assumes "isMetaInstruction (current_task m)"
  shows "\<forall>l \<in> set (formatLines m).
           \<not> prefix ''Current task: '' l \<and> \<not> prefix ''Please continue helping with: '' l"
  using assms
  by (auto simp: formatLines_def Let_def entityLine_def itemLine_def emDash_def)

lemma generic_instruction:
  assumes "isMetaInstruction (current_task m)"
  shows "(''Respond naturally '' @ emDash @
          '' share your thoughts on the above context and ask what I'd like to work on next.'')
         \<in> set (formatLines m)"
  using assms
  by (simp add: formatLines_def Let_def)


lemma meta_examples:
  "isMetaInstruction ''Reply must be valid JSON only'' \<and>
   isMetaInstruction ''Add no other text'' \<and>
   isMetaInstruction ''Summary for a browser extension'' \<and>
   isMetaInstruction ''Summarizing the conversation'' \<and>
   \<not> isMetaInstruction ''no backend''"
  by code_simp

text \<open>
  Claim C7. For every memory the context block is the one of the memory without its
  meta-instruction constraints and with a meta-instruction task blanked: such entries
  contribute nothing to the output. When the current task is a meta-instruction, no
  pushed line starts with \<open>Current task:\<close> or with the task-specific instruction
  \<open>Please continue helping with:\<close>, and the general instruction is pushed instead.
  Mentions of \<open>json\<close>, \<open>no other text\<close>, \<open>browser extension\<close> and \<open>summarizing the
  conversation\<close> are meta-instructions.
\<close>

theorem C7_meta_instructions_filtered:
  "(\<forall>m. formatContextBlock m =
          formatContextBlock
            (m\<lparr>constraints := filter (\<lambda>c. \<not> isMetaInstruction c) (constraints m),
               current_task := (if isMetaInstruction (current_task m) then []
                                else current_task m)\<rparr>)) \<and>
   (\<forall>m :: memory. isMetaInstruction (current_task m) \<longrightarrow>
      (\<forall>l \<in> set (formatLines m).
         \<not> prefix ''Current task: '' l \<and> \<not> prefix ''Please continue helping with: '' l) \<and>
      (''Respond naturally '' @ emDash @
       '' share your thoughts on the above context and ask what I'd like to work on next.'')
        \<in> set (formatLines m)) \<and>
   isMetaInstruction ''Reply must be valid JSON only'' \<and>
   isMetaInstruction ''Add no other text'' \<and>
   isMetaInstruction ''Summary for a browser extension'' \<and>
   isMetaInstruction ''Summarizing the conversation''"
proof (intro conjI allI impI)
  fix m
  show "formatContextBlock m =
          formatContextBlock
            (m\<lparr>constraints := filter (\<lambda>c. \<not> isMetaInstruction c) (constraints m),
               current_task := (if isMetaInstruction (current_task m) then []
                                else current_task m)\<rparr>)"
    unfolding formatContextBlock_def by (simp only: formatLines_filtered)
next
  fix m :: memory
  assume a: "isMetaInstruction (current_task m)"
  show "\<forall>l \<in> set (formatLines m).
         \<not> prefix ''Current task: '' l \<and> \<not> prefix ''Please continue helping with: '' l"
    using a by (rule no_task_lines)
  show "(''Respond naturally '' @ emDash @
       '' share your thoughts on the above context and ask what I'd like to work on next.'')
        \<in> set (formatLines m)"
    using a by (rule generic_instruction)
qed (simp_all add: meta_examples)

theorem C7_meta_instructions_filtered_witness:
  "isMetaInstruction (current_task pollutedMemory) \<and>
   filter (\<lambda>c. \<not> isMetaInstruction c) (constraints pollutedMemory) = [''no backend''] \<and>
   take 4 (drop 3 (formatLines pollutedMemory)) =
     [''Topic: Trip planning'', ''Constraints:'', ''- no backend'', ''---''] \<and>
   list_all (\<lambda>l. \<not> prefix ''Current task: '' l \<and>
                  \<not> prefix ''Please continue helping with: '' l)
            (formatLines pollutedMemory) \<and>
   formatContextBlock pollutedMemory =
     formatContextBlock (pollutedMemory\<lparr>constraints := [''no backend''], current_task := []\<rparr>)"
proof -
  note c = C7_meta_instructions_filtered
  have h: "isMetaInstruction (current_task pollutedMemory)" by code_simp
  have f: "filter (\<lambda>c. \<not> isMetaInstruction c) (constraints pollutedMemory) = [''no backend'']"
    by code_simp
  have l: "take 4 (drop 3 (formatLines pollutedMemory)) =
     [''Topic: Trip planning'', ''Constraints:'', ''- no backend'', ''---'']"
    by code_simp
  have "\<forall>l \<in> set (formatLines pollutedMemory).
      \<not> prefix ''Current task: '' l \<and> \<not> prefix ''Please continue helping with: '' l"
    using c [THEN conjunct2, THEN conjunct1, rule_format, OF h] by blast
  then have r1: "list_all (\<lambda>l. \<not> prefix ''Current task: '' l \<and>
                  \<not> prefix ''Please continue helping with: '' l)
            (formatLines pollutedMemory)"
    by (simp add: list_all_iff)
  have r2: "formatContextBlock pollutedMemory =
     formatContextBlock (pollutedMemory\<lparr>constraints := [''no backend''], current_task := []\<rparr>)"
    using c [THEN conjunct1, rule_format, of pollutedMemory] h f by simp
  show ?thesis using h f l r1 r2 by blast
qed

section \<open>Properties of the service worker\<close>

lemma ready_types:
  "t \<in> set (map readyType MODEL_REGISTRY) \<Longrightarrow>
     t = ''CHATGPT_READY'' \<or> t = ''CLAUDE_READY'' \<or> t = ''GEMINI_READY'' \<or>
     t = ''PERPLEXITY_READY'' \<or> t = ''DEEPSEEK_READY''"
  by (simp add: MODEL_REGISTRY_def)

lemma ready_type_model:
  assumes "t \<in> set (map readyType MODEL_REGISTRY)"
  shows "t \<noteq> ''GET_MODELS'' \<and> t \<noteq> ''CAPTURE'' \<and>
         (\<exists>m. getModelByMessageType t = Some m \<and> readyType m = t)"
proof -
  have one: "t \<noteq> ''GET_MODELS'' \<and> t \<noteq> ''CAPTURE'' \<and>
         (\<exists>m. getModelByMessageType t = Some m \<and> readyType m = t)"
    if "t = r" "r \<noteq> ''GET_MODELS''" "r \<noteq> ''CAPTURE''"
       "\<exists>m. getModelByMessageType r = Some m \<and> readyType m = r" for r
    using that by simp
  from ready_types [OF assms] show ?thesis
  proof (elim disjE)
    assume t: "t = ''CHATGPT_READY''"
    show ?thesis
      by (rule one [OF t]) (simp_all add: getModelByMessageType_def MODEL_REGISTRY_def)
  next
    assume t: "t = ''CLAUDE_READY''"
    show ?thesis
      by (rule one [OF t]) (simp_all add: getModelByMessageType_def MODEL_REGISTRY_def)
  next
    assume t: "t = ''GEMINI_READY''"
    show ?thesis
      by (rule one [OF t]) (simp_all add: getModelByMessageType_def MODEL_REGISTRY_def)
  next
    assume t: "t = ''PERPLEXITY_READY''"
    show ?thesis
      by (rule one [OF t]) (simp_all add: getModelByMessageType_def MODEL_REGISTRY_def)
  next
    assume t: "t = ''DEEPSEEK_READY''"
    show ?thesis
      by (rule one [OF t]) (simp_all add: getModelByMessageType_def MODEL_REGISTRY_def)
  qed
qed

lemma ready_model:
  "isReady message \<Longrightarrow>
     message.type message \<noteq> ''GET_MODELS'' \<and> message.type message \<noteq> ''CAPTURE'' \<and>
     (\<exists>m. getModelByMessageType (message.type message) = Some m \<and>
          readyType m = message.type message)"
  unfolding isReady_def by (rule ready_type_model)

lemma ready_pending:
  assumes "isReady message" "s \<noteq> 0" "pendingContext w s = Some pending"
  shows "onMessage JSON_parse w message (Some s) =
     \<lparr>state = w\<lparr>pendingContext := (pendingContext w)(s := None),
                 pendingReview := (pendingReview w)
                   (s \<mapsto> \<lparr>sourceTabId = sourceTabId pending,
                           conversationId = conversationId pending\<rparr>)\<rparr>,
      sent = Some (INJECT (contextBlock pending) (conversationId pending)),
      critique = None\<rparr>"
proof -
  note rm = ready_model [OF assms(1)]
  note g = rm [THEN conjunct1] and cp = rm [THEN conjunct2, THEN conjunct1]
  from rm [THEN conjunct2, THEN conjunct2] obtain m where
    m: "getModelByMessageType (message.type message) = Some m \<and>
        readyType m = message.type message" ..
  show ?thesis using g cp m assms(2,3) by (simp add: onMessage_def tabTruthy_def)
qed

lemma ready_idle:
  assumes "isReady message" "senderTabId = None \<or> senderTabId = Some 0 \<or>
     (\<exists>s. senderTabId = Some s \<and> pendingContext w s = None)"
  shows "onMessage JSON_parse w message senderTabId = \<lparr>state = w, sent = Some Null, critique = None\<rparr>"
proof -
  note rm = ready_model [OF assms(1)]
  note g = rm [THEN conjunct1] and cp = rm [THEN conjunct2, THEN conjunct1]
  from rm [THEN conjunct2, THEN conjunct2] obtain m where
    m: "getModelByMessageType (message.type message) = Some m \<and>
        readyType m = message.type message" ..
  from assms(2) have "(if tabTruthy senderTabId then pendingContext w (the senderTabId) else None) = None"
    by (auto simp: tabTruthy_def)
  then show ?thesis using g cp m by (simp add: onMessage_def)
qed

lemma onMessage_state:
  "state (onMessage JSON_parse w message senderTabId) = w \<or>
   (\<exists>s r. state (onMessage JSON_parse w message senderTabId) =
      w\<lparr>pendingContext := (pendingContext w)(s := None),
        pendingReview := (pendingReview w)(s \<mapsto> r)\<rparr>) \<or>
   (\<exists>s. state (onMessage JSON_parse w message senderTabId) =
      w\<lparr>pendingReview := (pendingReview w)(s := None)\<rparr>)"
  (is "?same \<or> ?moved \<or> ?closed")
proof (cases "message.type message = ''GET_MODELS'' \<or> message.type message = ''CAPTURE''")
  case True
  then have ?same by (auto simp: onMessage_def)
  then show ?thesis ..
next
  case False
  then have g: "message.type message \<noteq> ''GET_MODELS''" and cp: "message.type message \<noteq> ''CAPTURE''"
    by simp_all
  show ?thesis
  proof (cases "getModelByMessageType (message.type message)")
    case None
    then have ?same using g cp by (simp add: onMessage_def)
    then show ?thesis ..
  next
    case (Some m)
    show ?thesis
    proof (cases "message.type message = readyType m")
      case ready: True
      show ?thesis
      proof (cases "if tabTruthy senderTabId then pendingContext w (the senderTabId) else None")
        case None
        then have ?same using g cp Some ready by (simp add: onMessage_def)
        then show ?thesis ..
      next
        case (Some pending)
        have "state (onMessage JSON_parse w message senderTabId) =
          w\<lparr>pendingContext := (pendingContext w)(the senderTabId := None),
            pendingReview := (pendingReview w)
              (the senderTabId \<mapsto> \<lparr>sourceTabId = sourceTabId pending,
                                     conversationId = conversationId pending\<rparr>)\<rparr>"
          using g cp \<open>getModelByMessageType (message.type message) = Some m\<close> ready Some
          by (simp add: onMessage_def)
        then have ?moved by (intro exI)
        then show ?thesis by (intro disjI2 disjI1)
      qed
    next
      case notready: False
      show ?thesis
      proof (cases "message.type message = responseType m")
        case resp: True
        show ?thesis
        proof (cases "if tabTruthy senderTabId then pendingReview w (the senderTabId) else None")
          case None
          then have ?same using g cp Some notready resp by (simp add: onMessage_def)
          then show ?thesis ..
        next
          case (Some review)
          have "state (onMessage JSON_parse w message senderTabId) =
            w\<lparr>pendingReview := (pendingReview w)(the senderTabId := None)\<rparr>"
            using g cp \<open>getModelByMessageType (message.type message) = Some m\<close> notready resp Some
            by (simp add: onMessage_def)
          then have ?closed by (intro exI)
          then show ?thesis by (intro disjI2)
        qed
      next
        case False
        then have ?same using g cp Some notready by (simp add: onMessage_def)
        then show ?thesis ..
      qed
    qed
  qed
qed

lemma onMessage_disjoint:
  assumes d: "dom (pendingContext w) \<inter> dom (pendingReview w) = {}"
  shows "dom (pendingContext (state (onMessage JSON_parse w message senderTabId))) \<inter>
         dom (pendingReview (state (onMessage JSON_parse w message senderTabId))) = {}"
proof -
  let ?w = "state (onMessage JSON_parse w message senderTabId)"
  from onMessage_state [of JSON_parse w message senderTabId]
  consider "?w = w"
    | s r where "?w = w\<lparr>pendingContext := (pendingContext w)(s := None),
                       pendingReview := (pendingReview w)(s \<mapsto> r)\<rparr>"
    | s where "?w = w\<lparr>pendingReview := (pendingReview w)(s := None)\<rparr>"
    by blast
  then show ?thesis
  proof cases
    case 1
    then show ?thesis using d by simp
  next
    case 2
    have "dom ((pendingContext w)(s := None)) \<inter> dom ((pendingReview w)(s \<mapsto> r)) = {}"
      using d by auto
    then show ?thesis using 2 by simp
  next
    case 3
    have "dom (pendingContext w) \<inter> dom ((pendingReview w)(s := None)) = {}"
      using d by auto
    then show ?thesis using 3 by simp
  qed
qed

lemma reachableWorker_disjoint:
  "reachableWorker w \<Longrightarrow> dom (pendingContext w) \<inter> dom (pendingReview w) = {}"
proof (induction rule: reachableWorker.induct)
  case worker_start
  show ?case by (simp add: initialWorker_def)
next
  case (worker_message w JSON_parse message senderTabId)
  then show ?case by (intro onMessage_disjoint)
next
  case (worker_opened w tabId entry)
  have eq: "dom ((pendingContext w)(tabId \<mapsto> entry)) = insert tabId (dom (pendingContext w))"
    by simp
  have disj: "insert tabId (dom (pendingContext w)) \<inter> dom (pendingReview w) = {}"
    using worker_opened.IH worker_opened.hyps(2) by (simp add: Int_insert_left)
  have pc: "pendingContext (installPending w tabId entry) = (pendingContext w)(tabId \<mapsto> entry)"
    by (simp add: installPending_def)
  have pr: "pendingReview (installPending w tabId entry) = pendingReview w"
    by (simp add: installPending_def)
  show ?case unfolding pc pr eq by (rule disj)
qed




text \<open>
  Claim C8. A ready message from a tab with a pending handoff removes the handoff, stores
  a pending review with the same source tab and conversation id under the same tab id,
  and answers with the context block and the conversation id, all in one step of the
  handler. A ready message from a tab without a pending handoff, or from a sender without
  a tab, answers \<open>null\<close> and leaves both maps as they were. In every state the worker
  reaches, no tab id is in both maps.
\<close>

theorem C8_ready_handshake:
  "(\<forall>JSON_parse (w :: worker) message s pending.
      isReady message \<and> s \<noteq> 0 \<and> pendingContext w s = Some pending \<longrightarrow>
      onMessage JSON_parse w message (Some s) =
        \<lparr>state = w\<lparr>pendingContext := (pendingContext w)(s := None),
                    pendingReview := (pendingReview w)
                      (s \<mapsto> \<lparr>sourceTabId = sourceTabId pending,
                              conversationId = conversationId pending\<rparr>)\<rparr>,
         sent = Some (INJECT (contextBlock pending) (conversationId pending)),
         critique = None\<rparr>) \<and>
   (\<forall>JSON_parse (w :: worker) message s.
      isReady message \<and> pendingContext w s = None \<longrightarrow>
      onMessage JSON_parse w message (Some s) =
        \<lparr>state = w, sent = Some Null, critique = None\<rparr>) \<and>
   (\<forall>JSON_parse (w :: worker) message.
      isReady message \<longrightarrow>
      onMessage JSON_parse w message None = \<lparr>state = w, sent = Some Null, critique = None\<rparr>) \<and>
   (\<forall>w. reachableWorker w \<longrightarrow> dom (pendingContext w) \<inter> dom (pendingReview w) = {})"
proof (intro conjI allI impI)
  fix JSON_parse and w :: worker and message s pending
  assume "isReady message \<and> s \<noteq> 0 \<and> pendingContext w s = Some pending"
  then show "onMessage JSON_parse w message (Some s) =
        \<lparr>state = w\<lparr>pendingContext := (pendingContext w)(s := None),
                    pendingReview := (pendingReview w)
                      (s \<mapsto> \<lparr>sourceTabId = sourceTabId pending,
                              conversationId = conversationId pending\<rparr>)\<rparr>,
         sent = Some (INJECT (contextBlock pending) (conversationId pending)),
         critique = None\<rparr>"
    by (intro ready_pending) simp_all
next
  fix JSON_parse and w :: worker and message s
  assume "isReady message \<and> pendingContext w s = None"
  then show "onMessage JSON_parse w message (Some s) =
        \<lparr>state = w, sent = Some Null, critique = None\<rparr>"
    by (intro ready_idle) auto
next
  fix JSON_parse and w :: worker and message
  assume "isReady message"
  then show "onMessage JSON_parse w message None = \<lparr>state = w, sent = Some Null, critique = None\<rparr>"
    by (intro ready_idle) auto
next
  fix w
  assume "reachableWorker w"
  then show "dom (pendingContext w) \<inter> dom (pendingReview w) = {}"
    by (rule reachableWorker_disjoint)
qed




theorem C8_ready_handshake_witness:
  "isReady claudeReady \<and> pendingContext waitingWorker 42 = Some tripHandoff \<and>
   sent (onMessage parseOpenOnly waitingWorker claudeReady (Some 42)) =
     Some (INJECT ''Hey'' ''conv_1'') \<and>
   pendingContext (state (onMessage parseOpenOnly waitingWorker claudeReady (Some 42))) 42 = None \<and>
   pendingReview (state (onMessage parseOpenOnly waitingWorker claudeReady (Some 42))) 42 =
     Some \<lparr>sourceTabId = 7, conversationId = ''conv_1''\<rparr> \<and>
   pendingContext waitingWorker 43 = None \<and>
   onMessage parseOpenOnly waitingWorker claudeReady (Some 43) =
     \<lparr>state = waitingWorker, sent = Some Null, critique = None\<rparr> \<and>
   onMessage parseOpenOnly waitingWorker claudeReady None =
     \<lparr>state = waitingWorker, sent = Some Null, critique = None\<rparr> \<and>
   reachableWorker (state (onMessage parseOpenOnly waitingWorker claudeReady (Some 42))) \<and>
   dom (pendingContext (state (onMessage parseOpenOnly waitingWorker claudeReady (Some 42)))) \<inter>
   dom (pendingReview (state (onMessage parseOpenOnly waitingWorker claudeReady (Some 42)))) = {}"
proof -
  note c = C8_ready_handshake
  let ?after = "state (onMessage parseOpenOnly waitingWorker claudeReady (Some 42))"
  have r: "isReady claudeReady"
    by (simp add: isReady_def claudeReady_def MODEL_REGISTRY_def)
  have p: "pendingContext waitingWorker 42 = Some tripHandoff"
    by (simp add: waitingWorker_def installPending_def)
  have q: "pendingContext waitingWorker 43 = None"
    by (simp add: waitingWorker_def installPending_def initialWorker_def)
  have n0: "(42::nat) \<noteq> 0" by simp
  have h1: "isReady claudeReady \<and> (42::nat) \<noteq> 0 \<and> pendingContext waitingWorker 42 = Some tripHandoff"
    using r p by simp
  have e: "onMessage parseOpenOnly waitingWorker claudeReady (Some 42) =
        \<lparr>state = waitingWorker\<lparr>pendingContext := (pendingContext waitingWorker)(42 := None),
                    pendingReview := (pendingReview waitingWorker)
                      (42 \<mapsto> \<lparr>sourceTabId = sourceTabId tripHandoff,
                              conversationId = conversationId tripHandoff\<rparr>)\<rparr>,
         sent = Some (INJECT (contextBlock tripHandoff) (conversationId tripHandoff)),
         critique = None\<rparr>"
    using c [THEN conjunct1, rule_format, OF h1] .
  have i1: "onMessage parseOpenOnly waitingWorker claudeReady (Some 43) =
     \<lparr>state = waitingWorker, sent = Some Null, critique = None\<rparr>"
    using c [THEN conjunct2, THEN conjunct1, rule_format, of claudeReady waitingWorker 43] r q
    by simp
  have i2: "onMessage parseOpenOnly waitingWorker claudeReady None =
     \<lparr>state = waitingWorker, sent = Some Null, critique = None\<rparr>"
    using c [THEN conjunct2, THEN conjunct2, THEN conjunct1, rule_format, OF r] .
  have w0: "reachableWorker waitingWorker"
    unfolding waitingWorker_def
    by (rule worker_opened [OF worker_start]) (simp add: initialWorker_def)
  have w1: "reachableWorker ?after" by (rule worker_message [OF w0])
  have d: "dom (pendingContext ?after) \<inter> dom (pendingReview ?after) = {}"
    using c [THEN conjunct2, THEN conjunct2, THEN conjunct2, rule_format, OF w1] .
  have s1: "sent (onMessage parseOpenOnly waitingWorker claudeReady (Some 42)) =
     Some (INJECT ''Hey'' ''conv_1'')"
    by (simp add: e tripHandoff_def)
  have s2: "pendingContext ?after 42 = None" by (simp add: e)
  have s3: "pendingReview ?after 42 = Some \<lparr>sourceTabId = 7, conversationId = ''conv_1''\<rparr>"
    by (simp add: e tripHandoff_def)
  show ?thesis
    by (intro conjI) (rule r p s1 s2 s3 q i1 i2 w1 d)+
qed

end
